theory Spec2Isabelle
  imports Main "HOL-Library.Word"
begin

unbundle bit_operations_syntax

section \<open>Go values shared by the commands\<close>

type_synonym byte = "8 word"

text \<open>
  A Go call that can return an error, and can also panic at run time (a slice out of
  range), has three outcomes.  \<open>Err\<close> carries the text of the Go error.
\<close>

datatype 'a outcome = Panic | Err string | Ok 'a

text \<open>\<open>strings.HasPrefix\<close> and \<open>strings.TrimPrefix\<close> of the Go standard library.\<close>

definition HasPrefix :: "string \<Rightarrow> string \<Rightarrow> bool" where
  "HasPrefix s p = (take (length p) s = p)"

definition TrimPrefix :: "string \<Rightarrow> string \<Rightarrow> string" where
  "TrimPrefix s p = (if HasPrefix s p then drop (length p) s else s)"

text \<open>
  \<open>strings.ToLower\<close>, on the ASCII letters.  No other character lowers to an ASCII
  letter or digit, which is all that the prefix test of \<open>Check\<close> looks at.
\<close>

definition toLowerChar :: "char \<Rightarrow> char" where
  "toLowerChar c =
     (case map_of (zip ''ABCDEFGHIJKLMNOPQRSTUVWXYZ'' ''abcdefghijklmnopqrstuvwxyz'') c of
        Some l \<Rightarrow> l
      | None \<Rightarrow> c)"

definition ToLower :: "string \<Rightarrow> string" where
  "ToLower s = map toLowerChar s"

section \<open>check.go: the code inspector\<close>

text \<open>The \<open>RPCResponse\<close> struct; \<open>Error\<close> is \<open>None\<close> for a nil interface.\<close>

record RPCResponse =
  Result :: string
  Error :: "string option"

text \<open>
  What \<open>Check\<close> prints before it returns nil: the green line (safe), the two red lines
  with the contract address, or the yellow line.
\<close>

datatype verdict = Safe | Delegated string | ContractCode

text \<open>Lines 166 to 215 of \<open>Check\<close>: the classification of the fetched code.\<close>

definition classifyCode :: "string \<Rightarrow> verdict" where
  "classifyCode result =
     (if result = [] \<or> result = ''0x'' then Safe
      else
        let codeWithoutPrefix = (if HasPrefix result ''0x'' then drop 2 result else result);
            codeHexLower = ToLower codeWithoutPrefix
        in if HasPrefix codeHexLower ''ef0100''
           then Delegated (''0x'' @ drop 6 codeWithoutPrefix)
           else ContractCode)"

text \<open>
  The network steps of \<open>Check\<close>, each of which can fail: building the request, sending
  it, reading the body, decoding the JSON.
\<close>

datatype check_net =
    NewRequestFailed string
  | DoFailed string
  | ReadFailed string
  | UnmarshalFailed string
  | Response RPCResponse

definition isHexCharacter :: "char \<Rightarrow> bool" where
  "isHexCharacter c = (c \<in> set ''0123456789abcdefABCDEF'')"

definition has0xPrefix :: "string \<Rightarrow> bool" where
  "has0xPrefix s = (length s \<ge> 2 \<and> s ! 0 = CHR ''0'' \<and> (s ! 1 = CHR ''x'' \<or> s ! 1 = CHR ''X''))"

definition isHex :: "string \<Rightarrow> bool" where
  "isHex s = (length s mod 2 = 0 \<and> list_all isHexCharacter s)"

definition IsHexAddress :: "string \<Rightarrow> bool" where
  "IsHexAddress s =
     (let s' = (if has0xPrefix s then drop 2 s else s)
      in length s' = 40 \<and> isHex s')"

definition Check :: "string \<Rightarrow> check_net \<Rightarrow> verdict outcome" where
  "Check address net =
     (if address = [] then Err ''address is required''
      else if \<not> IsHexAddress address
      then Err (''invalid Ethereum address format: '' @ address)
      else case net of
          NewRequestFailed e \<Rightarrow> Err (''failed to create HTTP request: '' @ e)
        | DoFailed e \<Rightarrow> Err (''HTTP request failed: '' @ e)
        | ReadFailed e \<Rightarrow> Err (''failed to read response body: '' @ e)
        | UnmarshalFailed e \<Rightarrow> Err (''failed to unmarshal JSON-RPC response: '' @ e)
        | Response rpcResponse \<Rightarrow>
            (case Error rpcResponse of
               Some e \<Rightarrow> Err (''JSON-RPC error: '' @ e)
             | None \<Rightarrow> Ok (classifyCode (Result rpcResponse))))"

section \<open>The chain query client (clear.go and its later split)\<close>

text \<open>
  What one JSON-RPC read gives the caller.  \<open>CallFailed e\<close>: \<open>makeRPCCall\<close> returned
  the error \<open>e\<close>.  \<open>Unmarshalled err v\<close>: the body was read, \<open>json.Unmarshal\<close> returned
  \<open>err\<close> (\<open>None\<close> for nil) and left \<open>v\<close> in the field the caller reads (the empty
  string where the response has no such field).
\<close>

datatype 'a rpc_reply = CallFailed string | Unmarshalled "string option" 'a

text \<open>
  \<open>(*big.Int).SetString(s, 16)\<close> of the Go standard library on a fresh \<open>new(big.Int)\<close>:
  an optional sign, then hexadecimal digits of either case.  The callers ignore the
  returned pair and read the receiver, which holds the digits scanned so far even when
  the rest of the string is rejected; the first component is the receiver, the second
  the \<open>ok\<close> flag.
\<close>

definition hexDigit :: "char \<Rightarrow> nat option" where
  "hexDigit c =
     map_of (zip ''0123456789abcdefABCDEF''
                 [0, 1, 2, 3, 4, 5, 6, 7, 8, 9, 10, 11, 12, 13, 14, 15, 10, 11, 12, 13, 14, 15]) c"

fun scanDigits :: "nat \<Rightarrow> nat \<Rightarrow> string \<Rightarrow> nat \<times> nat \<times> string" where
  "scanDigits z count [] = (z, count, [])"
| "scanDigits z count (ch # r) =
     (case hexDigit ch of
        None \<Rightarrow> (z, count, ch # r)
      | Some d1 \<Rightarrow> scanDigits (z * 16 + d1) (Suc count) r)"

definition SetString16 :: "string \<Rightarrow> int \<times> bool" where
  "SetString16 s =
     (case s of
        [] \<Rightarrow> (0, False)
      | c # r \<Rightarrow>
          (let neg = (c = CHR ''-'');
               body = (if c = CHR ''-'' \<or> c = CHR ''+'' then r else s)
           in case scanDigits 0 0 body of
                (z, count, rest) \<Rightarrow>
                  if count = 0 then (0, False)
                  else (if neg then - int z else int z, rest = [])))"

text \<open>\<open>(*big.Int).Int64\<close>: the low 64 bits of the magnitude, negated for a negative value.\<close>

definition Int64 :: "int \<Rightarrow> 64 word" where
  "Int64 x = (let v = (word_of_nat (nat \<bar>x\<bar>) :: 64 word) in if x < 0 then - v else v)"

definition getChainID :: "string rpc_reply \<Rightarrow> int outcome" where
  "getChainID reply =
     (case reply of
        CallFailed e \<Rightarrow> Err e
      | Unmarshalled (Some e) result \<Rightarrow> Err e
      | Unmarshalled None result \<Rightarrow>
          if length result < 2 then Panic
          else Ok (fst (SetString16 (drop 2 result))))"

definition getNonce :: "string rpc_reply \<Rightarrow> 64 word outcome" where
  "getNonce reply =
     (case reply of
        CallFailed e \<Rightarrow> Err e
      | Unmarshalled (Some e) result \<Rightarrow> Err e
      | Unmarshalled None result \<Rightarrow>
          if length result < 2 then Panic
          else Ok (Int64 (fst (SetString16 (drop 2 result)))))"

definition getGasPrice :: "string rpc_reply \<Rightarrow> int outcome" where
  "getGasPrice reply =
     (case reply of
        CallFailed e \<Rightarrow> Err e
      | Unmarshalled (Some e) result \<Rightarrow> Err e
      | Unmarshalled None result \<Rightarrow>
          if length result < 2 then Panic
          else Ok (fst (SetString16 (drop 2 result))))"

record TransactionReceipt =
  TransactionHash :: string
  TransactionIndex :: string
  BlockHash :: string
  BlockNumber :: string
  Status :: string
  GasUsed :: string
  CumulativeGasUsed :: string

definition getTransactionReceipt ::
  "TransactionReceipt option rpc_reply \<Rightarrow> TransactionReceipt option outcome" where
  "getTransactionReceipt reply =
     (case reply of
        CallFailed e \<Rightarrow> Err e
      | Unmarshalled (Some e) result \<Rightarrow> Err e
      | Unmarshalled None result \<Rightarrow> Ok result)"

section \<open>The fee estimator\<close>

definition minPriorityFee :: int where
  "minPriorityFee = 100000000"

definition fallbackGasFees :: "string rpc_reply \<Rightarrow> (int \<times> int) outcome" where
  "fallbackGasFees gasPriceReply =
     (case getGasPrice gasPriceReply of
        Panic \<Rightarrow> Panic
      | Err e \<Rightarrow> Err (''failed to get gas price for fallback: '' @ e)
      | Ok gasPrice \<Rightarrow>
          (let gasPrice' = (if gasPrice < minPriorityFee then minPriorityFee else gasPrice)
           in Ok (gasPrice', gasPrice')))"

text \<open>
  The three reads of \<open>getSuggestedGasFees\<close>, in the order it makes them:
  \<open>eth_maxPriorityFeePerGas\<close>, the \<open>baseFeePerGas\<close> of \<open>eth_getBlockByNumber\<close>, and
  the \<open>eth_gasPrice\<close> of the fallback.
\<close>

definition getSuggestedGasFees ::
  "string rpc_reply \<Rightarrow> string rpc_reply \<Rightarrow> string rpc_reply \<Rightarrow> (int \<times> int) outcome" where
  "getSuggestedGasFees priorityFeeReply blockReply gasPriceReply =
     (case priorityFeeReply of
        CallFailed e \<Rightarrow> fallbackGasFees gasPriceReply
      | Unmarshalled err priorityFeeResult \<Rightarrow>
          if err \<noteq> None \<or> priorityFeeResult = [] then fallbackGasFees gasPriceReply
          else
            let maxPriorityFeePerGas = fst (SetString16 (TrimPrefix priorityFeeResult ''0x''))
            in case blockReply of
                 CallFailed e \<Rightarrow> Err (''failed to get latest block: '' @ e)
               | Unmarshalled err' baseFee \<Rightarrow>
                   if err' \<noteq> None \<or> baseFee = [] then fallbackGasFees gasPriceReply
                   else
                     let baseFeePerGas = fst (SetString16 (TrimPrefix baseFee ''0x''));
                         gasFeeCap = baseFeePerGas * 2 + maxPriorityFeePerGas
                     in if maxPriorityFeePerGas < minPriorityFee
                        then Ok (minPriorityFee, baseFeePerGas * 2 + minPriorityFee)
                        else Ok (maxPriorityFeePerGas, gasFeeCap))"

section \<open>Broadcast and confirmation\<close>

text \<open>
  \<open>broadcastRawTx\<close> posts by itself.  \<open>PostFailed e\<close>: \<open>http.Post\<close> returned \<open>e\<close>.
  Otherwise the record holds the error of \<open>io.ReadAll\<close> and of \<open>json.Unmarshal\<close>
  (both dropped by the code) and the two fields of the decoded struct, which are empty
  where the body gave nothing for them.
\<close>

record broadcast_response =
  readErr :: "string option"
  unmarshalErr :: "string option"
  resultField :: string
  errorMessage :: string

datatype broadcast_net = PostFailed string | PostDone broadcast_response

text \<open>The node is a function of the single parameter sent, \<open>"0x" + rawTxHex\<close>.\<close>

definition broadcastRawTx :: "string \<Rightarrow> (string \<Rightarrow> broadcast_net) \<Rightarrow> string outcome" where
  "broadcastRawTx rawTxHex node =
     (case node (''0x'' @ rawTxHex) of
        PostFailed e \<Rightarrow> Err e
      | PostDone resp \<Rightarrow>
          if errorMessage resp \<noteq> [] then Err (errorMessage resp)
          else Ok (resultField resp))"

text \<open>
  The polling loop of \<open>Clear\<close> and \<open>Set\<close>: \<open>for i := 0; i < 60; i++\<close>, a sleep of five
  seconds, one receipt read.  \<open>waitMined n i\<close> runs the \<open>n\<close> iterations that remain from
  index \<open>i\<close>; \<open>receipts i\<close> is what the read of iteration \<open>i\<close> gives.  The result is how
  the loop ends and how many reads it made.
\<close>

datatype terminal = Success | Failed string | TimedOut

fun waitMined ::
  "nat \<Rightarrow> nat \<Rightarrow> (nat \<Rightarrow> TransactionReceipt option rpc_reply) \<Rightarrow> string \<Rightarrow> terminal \<times> nat" where
  "waitMined 0 i receipts txHash = (TimedOut, i)"
| "waitMined (Suc n) i receipts txHash =
     (case getTransactionReceipt (receipts i) of
        Ok (Some receipt) \<Rightarrow>
          if Status receipt = ''0x1'' then (Success, Suc i)
          else if Status receipt = ''0x0'' then (Failed (''transaction failed: '' @ txHash), Suc i)
          else waitMined n (Suc i) receipts txHash
      | _ \<Rightarrow> waitMined n (Suc i) receipts txHash)"

text \<open>
  \<open>Clear\<close> from the line after a successful broadcast to its return: the seconds slept,
  whether the closing hint (the \<open>eip7702cleaner check\<close> command to run by hand) is
  printed, and the error returned (\<open>None\<close> for nil).
\<close>

record clear_end =
  secondsSlept :: nat
  hintPrinted :: bool
  returned :: "string option"

definition Clear_afterBroadcast ::
  "(nat \<Rightarrow> TransactionReceipt option rpc_reply) \<Rightarrow> string \<Rightarrow> clear_end" where
  "Clear_afterBroadcast receipts txHash =
     (case waitMined 60 0 receipts txHash of
        (Failed e, polls) \<Rightarrow> \<lparr>secondsSlept = 5 * polls, hintPrinted = False, returned = Some e\<rparr>
      | (t, polls) \<Rightarrow> \<lparr>secondsSlept = 5 * polls, hintPrinted = True, returned = None\<rparr>)"

section \<open>Library encodings used by the transaction builder\<close>

text \<open>
  The functions of \<open>encoding/hex\<close> and of go-ethereum's \<open>rlp\<close> that the builder calls.
  Their error values are kept as errors; the texts are shortened, since the callers only
  pass them on.
\<close>

subsection \<open>encoding/hex\<close>

definition hextable :: string where
  "hextable = ''0123456789abcdef''"

definition hex_EncodeToString :: "byte list \<Rightarrow> string" where
  "hex_EncodeToString src =
     concat (map (\<lambda>v. [hextable ! unat (drop_bit 4 v), hextable ! unat (v AND 0x0f)]) src)"

definition fromHexChar :: "char \<Rightarrow> byte option" where
  "fromHexChar c =
     map_of (zip ''0123456789abcdefABCDEF''
                 [0, 1, 2, 3, 4, 5, 6, 7, 8, 9, 10, 11, 12, 13, 14, 15, 10, 11, 12, 13, 14, 15]) c"

fun hex_DecodeString :: "string \<Rightarrow> string + byte list" where
  "hex_DecodeString [] = Inr []"
| "hex_DecodeString [c] =
     (if fromHexChar c = None then Inl ''encoding/hex: invalid byte''
      else Inl ''encoding/hex: odd length hex string'')"
| "hex_DecodeString (p # q # rest) =
     (case fromHexChar p of
        None \<Rightarrow> Inl ''encoding/hex: invalid byte''
      | Some a \<Rightarrow>
          (case fromHexChar q of
             None \<Rightarrow> Inl ''encoding/hex: invalid byte''
           | Some b \<Rightarrow>
               (case hex_DecodeString rest of
                  Inl e \<Rightarrow> Inl e
                | Inr bs \<Rightarrow> Inr ((push_bit 4 a OR b) # bs))))"

subsection \<open>Big-endian integers\<close>

text \<open>The minimal big-endian bytes of a number (none for zero), and \<open>SetBytes\<close> back.\<close>

fun BE :: "nat \<Rightarrow> byte list" where
  "BE n = (if n = 0 then [] else BE (n div 256) @ [of_nat (n mod 256)])"

declare BE.simps [simp del]

definition SetBytes :: "byte list \<Rightarrow> nat" where
  "SetBytes buf = foldl (\<lambda>a b. a * 256 + unat b) 0 buf"

subsection \<open>RLP as the protocol defines it\<close>

text \<open>
  An RLP item is a byte string or a list of items.  A single byte below 128 is its own
  encoding; a string of fewer than 56 bytes has the one-byte header \<open>0x80 + length\<close>,
  a longer one \<open>0xb7 + length of the length\<close> and the big-endian length; lists have
  the same form from \<open>0xc0\<close> and \<open>0xf7\<close> over the concatenated items.
\<close>

datatype rlp_item = Str "byte list" | Lst "rlp_item list"

fun RLP :: "rlp_item \<Rightarrow> byte list" where
  "RLP (Str b) =
     (if length b = 1 \<and> unat (hd b) < 128 then b
      else if length b < 56 then of_nat (128 + length b) # b
      else of_nat (183 + length (BE (length b))) # BE (length b) @ b)"
| "RLP (Lst xs) =
     (let s = concat (map RLP xs)
      in if length s < 56 then of_nat (192 + length s) # s
         else of_nat (247 + length (BE (length s))) # BE (length s) @ s)"

subsection \<open>go-ethereum's rlp package on the values the builder passes\<close>

text \<open>
  The Go values that reach \<open>rlp.Encode\<close>: \<open>*big.Int\<close> (never nil at a call site of this
  repository), \<open>uint64\<close>, \<open>uint8\<close>, \<open>common.Address\<close> (a 20-byte array), \<open>[]byte\<close>
  and \<open>[]interface{}\<close>.
\<close>

datatype rlp_value =
    BigInt int
  | Uint64 "64 word"
  | Uint8 byte
  | Address "byte list"
  | Bytes "byte list"
  | Slice "rlp_value list"

definition encodeStringHeader :: "nat \<Rightarrow> byte list" where
  "encodeStringHeader sz =
     (if sz < 56 then [of_nat (0x80 + sz)]
      else of_nat (0xB7 + length (BE sz)) # BE sz)"

definition listHeader :: "nat \<Rightarrow> byte list" where
  "listHeader sz =
     (if sz < 56 then [of_nat (0xC0 + sz)]
      else of_nat (0xF7 + length (BE sz)) # BE sz)"

definition writeUint :: "nat \<Rightarrow> byte list" where
  "writeUint i =
     (if i = 0 then [0x80]
      else if i < 128 then [of_nat i]
      else of_nat (0x80 + length (BE i)) # BE i)"

definition writeBigInt :: "nat \<Rightarrow> byte list" where
  "writeBigInt i =
     (if i < 2 ^ 64 then writeUint i
      else encodeStringHeader (length (BE i)) @ BE i)"

definition writeBytes :: "byte list \<Rightarrow> byte list" where
  "writeBytes b =
     (if length b = 1 \<and> unat (hd b) \<le> 0x7F then b
      else encodeStringHeader (length b) @ b)"

fun encodeVal :: "rlp_value \<Rightarrow> string + byte list"
and encodeVals :: "rlp_value list \<Rightarrow> string + byte list" where
  "encodeVal (BigInt i) =
     (if i < 0 then Inl ''rlp: cannot encode negative big.Int'' else Inr (writeBigInt (nat i)))"
| "encodeVal (Uint64 i) = Inr (writeUint (unat i))"
| "encodeVal (Uint8 i) = Inr (writeUint (unat i))"
| "encodeVal (Address a) = Inr (writeBytes a)"
| "encodeVal (Bytes b) = Inr (writeBytes b)"
| "encodeVal (Slice vs) =
     (case encodeVals vs of
        Inl e \<Rightarrow> Inl e
      | Inr payload \<Rightarrow> Inr (listHeader (length payload) @ payload))"
| "encodeVals [] = Inr []"
| "encodeVals (v # vs) =
     (case encodeVal v of
        Inl e \<Rightarrow> Inl e
      | Inr b \<Rightarrow> (case encodeVals vs of Inl e \<Rightarrow> Inl e | Inr bs \<Rightarrow> Inr (b @ bs)))"

definition rlp_EncodeToBytes :: "rlp_value \<Rightarrow> string + byte list" where
  "rlp_EncodeToBytes val = encodeVal val"

text \<open>\<open>rlp.Encode(w, val)\<close> writes to \<open>w\<close> only when the whole value encoded.\<close>

definition rlp_Encode :: "byte list \<Rightarrow> rlp_value \<Rightarrow> byte list \<times> string option" where
  "rlp_Encode w val =
     (case encodeVal val of Inl e \<Rightarrow> (w, Some e) | Inr bs \<Rightarrow> (w @ bs, None))"

text \<open>
  \<open>rlp.DecodeBytes\<close> into a \<open>[]interface{}\<close>: strings come back as \<open>[]byte\<close>, lists as
  \<open>[]interface{}\<close>.  Sizes must be canonical and fit the input, and nothing may follow
  the list.  The first argument of \<open>decodeItem\<close> bounds the depth of the recursion;
  twice the length of the input always suffices.
\<close>

definition readSize :: "nat \<Rightarrow> byte list \<Rightarrow> (nat \<times> byte list) option" where
  "readSize n bs =
     (if length bs < n \<or> n = 0 then None
      else if unat (hd bs) = 0 then None
      else let sz = SetBytes (take n bs)
           in if sz < 56 then None else Some (sz, drop n bs))"

fun decodeItem :: "nat \<Rightarrow> byte list \<Rightarrow> (rlp_value \<times> byte list) option"
and decodeList :: "nat \<Rightarrow> byte list \<Rightarrow> rlp_value list option" where
  "decodeItem 0 bs = None"
| "decodeItem (Suc f) [] = None"
| "decodeItem (Suc f) (b # rest) =
     (let n = unat b in
      if n < 0x80 then Some (Bytes [b], rest)
      else if n < 0xB8 then
        (let sz = n - 0x80 in
         if length rest < sz then None
         else if sz = 1 \<and> unat (hd rest) < 128 then None
         else Some (Bytes (take sz rest), drop sz rest))
      else if n < 0xC0 then
        (case readSize (n - 0xB7) rest of
           None \<Rightarrow> None
         | Some (sz, rest') \<Rightarrow>
             if length rest' < sz then None
             else Some (Bytes (take sz rest'), drop sz rest'))
      else if n < 0xF8 then
        (let sz = n - 0xC0 in
         if length rest < sz then None
         else (case decodeList f (take sz rest) of
                 None \<Rightarrow> None
               | Some vs \<Rightarrow> Some (Slice vs, drop sz rest)))
      else
        (case readSize (n - 0xF7) rest of
           None \<Rightarrow> None
         | Some (sz, rest') \<Rightarrow>
             if length rest' < sz then None
             else (case decodeList f (take sz rest') of
                     None \<Rightarrow> None
                   | Some vs \<Rightarrow> Some (Slice vs, drop sz rest'))))"
| "decodeList 0 bs = None"
| "decodeList (Suc f) bs =
     (if bs = [] then Some []
      else (case decodeItem f bs of
              None \<Rightarrow> None
            | Some (v, rest) \<Rightarrow>
                (case decodeList f rest of None \<Rightarrow> None | Some vs \<Rightarrow> Some (v # vs))))"

definition rlp_DecodeBytes :: "byte list \<Rightarrow> string + rlp_value list" where
  "rlp_DecodeBytes b =
     (case decodeItem (2 * length b) b of
        None \<Rightarrow> Inl ''rlp: malformed input''
      | Some (Slice vs, rest) \<Rightarrow>
          if rest = [] then Inr vs else Inl ''rlp: input contains more than one value''
      | Some (v, rest) \<Rightarrow> Inl ''rlp: expected input list for []interface {}'')"

section \<open>The authorization digest and the transaction builder\<close>

text \<open>
  The two functions of go-ethereum's crypto package that the builder calls, for keys of
  any type: \<open>Keccak256\<close>, and \<open>Sign\<close>, which returns an error or the signature bytes.
\<close>

record 'k crypto =
  Keccak256 :: "byte list \<Rightarrow> byte list"
  Sign :: "byte list \<Rightarrow> 'k \<Rightarrow> string + byte list"

definition SET_CODE_TX_TYPE :: byte where
  "SET_CODE_TX_TYPE = 0x04"

definition MAGIC :: byte where
  "MAGIC = 0x05"

definition authTupleMessage :: "'k crypto \<Rightarrow> int \<Rightarrow> byte list \<Rightarrow> 64 word \<Rightarrow> byte list" where
  "authTupleMessage cr chainId addr nonce =
     (let buf = fst (rlp_Encode [] (Slice [BigInt chainId, Address addr, Uint64 nonce]));
          msg = [MAGIC] @ buf
      in Keccak256 cr msg)"

definition build7702Tx ::
  "'k crypto \<Rightarrow> int \<Rightarrow> 'k \<Rightarrow> 64 word \<Rightarrow> 64 word \<Rightarrow> int \<Rightarrow> int \<Rightarrow> 64 word \<Rightarrow> byte list \<Rightarrow> byte list
     \<Rightarrow> string outcome" where
  "build7702Tx cr chainId userPriv relayerNonce userNonce gasTip gasFeeCap gasLimit contractAddr txData =
     (let authMsg = authTupleMessage cr chainId contractAddr userNonce
      in case Sign cr authMsg userPriv of
           Inl e \<Rightarrow> Err e
         | Inr sig \<Rightarrow>
             if length sig < 65 then Panic
             else
               let r = int (SetBytes (take 32 sig));
                   s = int (SetBytes (take 32 (drop 32 sig)));
                   yParity = sig ! 64;
                   rawTx = Slice
                     [BigInt chainId, Uint64 relayerNonce, BigInt gasTip, BigInt gasFeeCap,
                      Uint64 gasLimit, Address contractAddr, BigInt 0, Bytes txData,
                      Slice [],
                      Slice [Slice [BigInt chainId, Address contractAddr, Uint64 userNonce,
                                    Uint8 yParity, BigInt r, BigInt s]]]
               in case rlp_EncodeToBytes rawTx of
                    Inl e \<Rightarrow> Err e
                  | Inr rlpPayload \<Rightarrow>
                      Ok (hex_EncodeToString ([SET_CODE_TX_TYPE] @ rlpPayload)))"

definition signEIP7702Tx :: "'k crypto \<Rightarrow> string \<Rightarrow> 'k \<Rightarrow> string outcome" where
  "signEIP7702Tx cr rawHex relayerPriv =
     (case hex_DecodeString rawHex of
        Inl e \<Rightarrow> Err e
      | Inr txBytes \<Rightarrow>
          if length txBytes < 1 then Err ''not a EIP-7702 tx hex''
          else if hd txBytes \<noteq> 0x04 then Err ''not a EIP-7702 tx hex''
          else
            let payload = drop 1 txBytes
            in case rlp_DecodeBytes payload of
                 Inl e \<Rightarrow> Err e
               | Inr txRaw \<Rightarrow>
                   (let hash = Keccak256 cr ([0x04] @ payload)
                    in case Sign cr hash relayerPriv of
                         Inl e \<Rightarrow> Err e
                       | Inr sig \<Rightarrow>
                           if length sig < 65 then Panic
                           else
                             let r = int (SetBytes (take 32 sig));
                                 s = int (SetBytes (take 32 (drop 32 sig)));
                                 yParity = sig ! 64;
                                 txRaw' = txRaw @ [Uint8 yParity, BigInt r, BigInt s]
                             in case rlp_EncodeToBytes (Slice txRaw') of
                                  Inl e \<Rightarrow> Err e
                                | Inr finalPayload \<Rightarrow>
                                    Ok (hex_EncodeToString ([0x04] @ finalPayload))))"

record 'k SetAuthorizationRequest =
  UserEOAPrivateKey :: 'k
  UserEOANonce :: "64 word"
  RelayerEOAPrivateKey :: 'k
  RelayerNonce :: "64 word"
  TemplateAddress :: "byte list"
  ChainId :: int
  GasTip :: int
  GasFeeCap :: int
  GasLimit :: "64 word"

text \<open>\<open>common.Address{}\<close>, the zero value of the 20-byte array.\<close>

definition zeroAddress :: "byte list" where
  "zeroAddress = replicate 20 0"

text \<open>\<open>GenerateSet7702AuthTx\<close> as src/pkg/cmd/clear.go defines it.\<close>

definition GenerateSet7702AuthTx :: "'k crypto \<Rightarrow> 'k SetAuthorizationRequest \<Rightarrow> string outcome" where
  "GenerateSet7702AuthTx cr req =
     (case build7702Tx cr (ChainId req) (UserEOAPrivateKey req) (RelayerNonce req)
             (UserEOANonce req) (GasTip req) (GasFeeCap req) (GasLimit req) zeroAddress [] of
        Panic \<Rightarrow> Panic
      | Err e \<Rightarrow> Err e
      | Ok unsignedTxHex \<Rightarrow> signEIP7702Tx cr unsignedTxHex (RelayerEOAPrivateKey req))"

text \<open>\<open>GenerateSet7702AuthTx\<close> as the later file (src/unnamed/part_001) defines it.\<close>

definition GenerateSet7702AuthTx_part001 ::
  "'k crypto \<Rightarrow> 'k SetAuthorizationRequest \<Rightarrow> string outcome" where
  "GenerateSet7702AuthTx_part001 cr req =
     (case build7702Tx cr (ChainId req) (UserEOAPrivateKey req) (RelayerNonce req)
             (UserEOANonce req) (GasTip req) (GasFeeCap req) (GasLimit req)
             (TemplateAddress req) [] of
        Panic \<Rightarrow> Panic
      | Err e \<Rightarrow> Err e
      | Ok unsignedTxHex \<Rightarrow> signEIP7702Tx cr unsignedTxHex (RelayerEOAPrivateKey req))"

text \<open>
  The request that \<open>Clear\<close> builds from its local variables, and the one that \<open>Set\<close>
  builds; the nonces are the \<open>int64\<close> of \<open>getNonce\<close> converted to \<open>uint64\<close>, which keeps
  the bits.
\<close>

definition Clear_request ::
  "'k \<Rightarrow> 64 word \<Rightarrow> 'k \<Rightarrow> 64 word \<Rightarrow> int \<Rightarrow> int \<Rightarrow> int \<Rightarrow> 64 word \<Rightarrow> 'k SetAuthorizationRequest" where
  "Clear_request victimPrivateKey victimNonce relayerPrivateKey relayerNonce chainID gasTip
       gasFeeCap gasLimit =
     \<lparr>UserEOAPrivateKey = victimPrivateKey, UserEOANonce = victimNonce,
      RelayerEOAPrivateKey = relayerPrivateKey, RelayerNonce = relayerNonce,
      TemplateAddress = zeroAddress, ChainId = chainID, GasTip = gasTip,
      GasFeeCap = gasFeeCap, GasLimit = gasLimit\<rparr>"

definition Set_request ::
  "byte list \<Rightarrow> 'k \<Rightarrow> 64 word \<Rightarrow> 'k \<Rightarrow> 64 word \<Rightarrow> int \<Rightarrow> int \<Rightarrow> int \<Rightarrow> 64 word
     \<Rightarrow> 'k SetAuthorizationRequest" where
  "Set_request templateAddress userPrivateKey userNonce relayerPrivateKey relayerNonce chainID
       gasTip gasFeeCap gasLimit =
     \<lparr>UserEOAPrivateKey = userPrivateKey, UserEOANonce = userNonce,
      RelayerEOAPrivateKey = relayerPrivateKey, RelayerNonce = relayerNonce,
      TemplateAddress = templateAddress, ChainId = chainID, GasTip = gasTip,
      GasFeeCap = gasFeeCap, GasLimit = gasLimit\<rparr>"

text \<open>
  The call \<open>GenerateSet7702AuthTx(req)\<close> as \<open>Set\<close> makes it, and as the \<open>Clear\<close> that
  reads its fees from the network makes it.  Both commands call \<open>getSuggestedGasFees\<close>,
  which only the later file defines, and a Go package holds one function of a name: they
  are compiled with that file's \<open>GenerateSet7702AuthTx\<close>.
\<close>

definition Set_signedTx ::
  "'k crypto \<Rightarrow> byte list \<Rightarrow> 'k \<Rightarrow> 64 word \<Rightarrow> 'k \<Rightarrow> 64 word \<Rightarrow> int \<Rightarrow> int \<Rightarrow> int \<Rightarrow> 64 word
     \<Rightarrow> string outcome" where
  "Set_signedTx cr templateAddress userPrivateKey userNonce relayerPrivateKey relayerNonce chainID
       gasTip gasFeeCap gasLimit =
     GenerateSet7702AuthTx_part001 cr
       (Set_request templateAddress userPrivateKey userNonce relayerPrivateKey relayerNonce
          chainID gasTip gasFeeCap gasLimit)"

definition Clear_signedTx ::
  "'k crypto \<Rightarrow> 'k \<Rightarrow> 64 word \<Rightarrow> 'k \<Rightarrow> 64 word \<Rightarrow> int \<Rightarrow> int \<Rightarrow> int \<Rightarrow> 64 word \<Rightarrow> string outcome" where
  "Clear_signedTx cr victimPrivateKey victimNonce relayerPrivateKey relayerNonce chainID gasTip
       gasFeeCap gasLimit =
     GenerateSet7702AuthTx_part001 cr
       (Clear_request victimPrivateKey victimNonce relayerPrivateKey relayerNonce chainID gasTip
          gasFeeCap gasLimit)"

section \<open>The builder's values as RLP items\<close>

text \<open>
  The item each Go value stands for: an integer is the string of its minimal big-endian
  bytes, an address or byte slice is itself, a slice of values is a list.  \<open>generic\<close>
  is the way back that decoding into \<open>[]interface{}\<close> takes.
\<close>

fun itemOf :: "rlp_value \<Rightarrow> rlp_item" where
  "itemOf (BigInt i) = Str (BE (nat i))"
| "itemOf (Uint64 i) = Str (BE (unat i))"
| "itemOf (Uint8 i) = Str (BE (unat i))"
| "itemOf (Address a) = Str a"
| "itemOf (Bytes b) = Str b"
| "itemOf (Slice vs) = Lst (map itemOf vs)"

fun generic :: "rlp_item \<Rightarrow> rlp_value" where
  "generic (Str b) = Bytes b"
| "generic (Lst xs) = Slice (map generic xs)"

fun nonNegative :: "rlp_value \<Rightarrow> bool" where
  "nonNegative (BigInt i) = (0 \<le> i)"
| "nonNegative (Slice vs) = list_all nonNegative vs"
| "nonNegative v = True"

section \<open>The transaction as the design describes it\<close>

text \<open>
  The signed authorization entry \<open>[chain_id, delegate, nonce, recovery_id, r, s]\<close>, the ten
  fields of the envelope in their fixed order, and the three fields of the outer signature
  \<open>[recovery_id, r, s]\<close>.  A signature is the 65 bytes \<open>r || s || v\<close>; \<open>r\<close> and \<open>s\<close> enter
  as integers, the recovery id as the byte it is.
\<close>

definition authEntry :: "int \<Rightarrow> byte list \<Rightarrow> 64 word \<Rightarrow> byte list \<Rightarrow> rlp_item" where
  "authEntry chainId delegate nonce sig =
     Lst [Str (BE (nat chainId)), Str delegate, Str (BE (unat nonce)),
          Str (BE (unat (sig ! 64))),
          Str (BE (SetBytes (take 32 sig))),
          Str (BE (SetBytes (take 32 (drop 32 sig))))]"

definition envelope ::
  "int \<Rightarrow> 64 word \<Rightarrow> int \<Rightarrow> int \<Rightarrow> 64 word \<Rightarrow> byte list \<Rightarrow> byte list \<Rightarrow> 64 word \<Rightarrow> byte list
     \<Rightarrow> rlp_item list" where
  "envelope chainId relayerNonce gasTip gasFeeCap gasLimit delegate txData userNonce authSig =
     [Str (BE (nat chainId)), Str (BE (unat relayerNonce)), Str (BE (nat gasTip)),
      Str (BE (nat gasFeeCap)), Str (BE (unat gasLimit)), Str delegate, Str [], Str txData,
      Lst [], Lst [authEntry chainId delegate userNonce authSig]]"

definition outerSignature :: "byte list \<Rightarrow> rlp_item list" where
  "outerSignature sig =
     [Str (BE (unat (sig ! 64))),
      Str (BE (SetBytes (take 32 sig))),
      Str (BE (SetBytes (take 32 (drop 32 sig))))]"

text \<open>
  The number of top-level elements of a hex payload: decode the hex, drop the type byte,
  decode the RLP list.
\<close>

definition topLevelElements :: "string \<Rightarrow> rlp_value list option" where
  "topLevelElements payloadHex =
     (case hex_DecodeString payloadHex of
        Inl e \<Rightarrow> None
      | Inr bs \<Rightarrow>
          (case bs of
             [] \<Rightarrow> None
           | t # p \<Rightarrow>
               if t = 0x04
               then (case rlp_DecodeBytes p of Inl e \<Rightarrow> None | Inr vs \<Rightarrow> Some vs)
               else None))"

text \<open>
  A stand-in for the crypto library with fixed outputs, to run the builder on concrete
  inputs: every digest is 32 zero bytes, every signature is \<open>r = 1\<close>, \<open>s = 2\<close>, parity 1.
\<close>

definition fixedSignature :: "byte list" where
  "fixedSignature = replicate 31 0 @ [1] @ replicate 31 0 @ [2] @ [1]"

definition fixedCrypto :: "unit crypto" where
  "fixedCrypto =
     \<lparr>Keccak256 = (\<lambda>msg. replicate 32 0), Sign = (\<lambda>digest key. Inr fixedSignature)\<rparr>"

section \<open>Reference notions for the chain reads and the polling\<close>

text \<open>
  The integer a string of hexadecimal digits encodes, big-endian: the first digit weighs
  the most.  A character that is no digit counts as zero.
\<close>

definition digitOf :: "char \<Rightarrow> nat" where
  "digitOf c = (case hexDigit c of Some d \<Rightarrow> d | None \<Rightarrow> 0)"

fun hexValue :: "string \<Rightarrow> nat" where
  "hexValue [] = 0"
| "hexValue (c # cs) = digitOf c * 16 ^ length cs + hexValue cs"

text \<open>
  What one poll shows: the status of the receipt, when the read succeeded and the receipt
  is there.  A poll is pending unless it shows \<open>0x1\<close> or \<open>0x0\<close>.
\<close>

definition polledStatus :: "TransactionReceipt option rpc_reply \<Rightarrow> string option" where
  "polledStatus reply =
     (case reply of
        Unmarshalled None (Some receipt) \<Rightarrow> Some (Status receipt)
      | _ \<Rightarrow> None)"

definition pending :: "TransactionReceipt option rpc_reply \<Rightarrow> bool" where
  "pending reply = (polledStatus reply \<notin> {Some ''0x1'', Some ''0x0''})"

section \<open>Facts about the encodings\<close>

subsection \<open>Big-endian integers and hexadecimal text\<close>

lemma BE_0: "BE 0 = []"
  by (simp add: BE.simps)

lemma BE_pos: "0 < n \<Longrightarrow> BE n = BE (n div 256) @ [of_nat (n mod 256)]"
  by (subst BE.simps) simp

lemma SetBytes_snoc: "SetBytes (xs @ [b]) = SetBytes xs * 256 + unat b"
  by (simp add: SetBytes_def)

lemma unat_byte_of_mod: "unat (of_nat (n mod 256) :: byte) = n mod 256"
  by (simp add: unat_of_nat)

lemma SetBytes_BE: "SetBytes (BE n) = n"
proof (induction n rule: BE.induct)
  case (1 n)
  show ?case
  proof (cases "n = 0")
    case True
    then show ?thesis by (simp add: BE_0 SetBytes_def)
  next
    case False
    then have "SetBytes (BE (n div 256)) = n div 256" using 1 by simp
    with False show ?thesis
      by (simp add: BE_pos SetBytes_snoc unat_byte_of_mod)
  qed
qed

lemma BE_nonempty: "0 < n \<Longrightarrow> BE n \<noteq> []"
  by (simp add: BE_pos)

lemma BE_eq_Nil: "BE n = [] \<longleftrightarrow> n = 0"
  using BE_nonempty [of n] by (auto simp: BE_0)

lemma BE_small: "0 < n \<Longrightarrow> n < 256 \<Longrightarrow> BE n = [of_nat n]"
  by (simp add: BE_pos BE_0)

lemma hd_BE_nonzero: "0 < n \<Longrightarrow> unat (hd (BE n)) \<noteq> 0"
proof (induction n rule: BE.induct)
  case (1 n)
  show ?case
  proof (cases "n < 256")
    case True
    with 1(2) show ?thesis by (simp add: BE_small unat_of_nat)
  next
    case False
    then have pos: "0 < n div 256" by simp
    then have "unat (hd (BE (n div 256))) \<noteq> 0" using 1 by simp
    moreover have "BE (n div 256) \<noteq> []" using pos by (rule BE_nonempty)
    ultimately show ?thesis using 1(2) by (simp add: BE_pos [of n])
  qed
qed

lemma length_BE_le: "n < 256 ^ k \<Longrightarrow> length (BE n) \<le> k"
proof (induction n arbitrary: k rule: BE.induct)
  case (1 n)
  show ?case
  proof (cases "n = 0")
    case True
    then show ?thesis by (simp add: BE_0)
  next
    case False
    then obtain j where k: "k = Suc j" using 1(2) by (cases k) auto
    have "n div 256 < 256 ^ j" using 1(2) k by (simp add: less_mult_imp_div_less)
    then have "length (BE (n div 256)) \<le> j" using 1(1) False by simp
    with False k show ?thesis by (simp add: BE_pos)
  qed
qed

lemma length_BE_ge: "256 ^ k \<le> n \<Longrightarrow> k < length (BE n)"
proof (induction n arbitrary: k rule: BE.induct)
  case (1 n)
  have pos: "0 < n" using 1(2) by (metis gr0I not_less_eq_eq power_eq_0_iff zero_neq_numeral le_zero_eq)
  show ?case
  proof (cases k)
    case 0
    then show ?thesis using pos by (simp add: BE_pos)
  next
    case (Suc j)
    have "256 ^ j \<le> n div 256" using 1(2) Suc by (simp add: less_eq_div_iff_mult_less_eq)
    then have "j < length (BE (n div 256))" using 1(1) pos by simp
    with pos Suc show ?thesis by (simp add: BE_pos)
  qed
qed

lemma fromHexChar_hextable: "n < 16 \<Longrightarrow> fromHexChar (hextable ! n) = Some (of_nat n)"
proof -
  assume "n < 16"
  then have "n = 0 \<or> n = 1 \<or> n = 2 \<or> n = 3 \<or> n = 4 \<or> n = 5 \<or> n = 6 \<or> n = 7 \<or> n = 8 \<or> n = 9
    \<or> n = 10 \<or> n = 11 \<or> n = 12 \<or> n = 13 \<or> n = 14 \<or> n = 15" by arith
  then show ?thesis
    by (elim disjE) (simp_all add: fromHexChar_def hextable_def)
qed

lemma low_nibble_take_bit: "(v :: byte) AND 0x0f = take_bit 4 v"
proof -
  have "(0x0f :: byte) = mask 4" by (simp add: mask_eq_exp_minus_1)
  then show ?thesis by (simp add: take_bit_eq_mask)
qed

lemma byte_nibbles: "push_bit 4 (drop_bit 4 v) OR (v AND 0x0f) = (v :: byte)"
  unfolding low_nibble_take_bit
  by (rule bit_word_eqI) (auto simp: bit_simps)

lemma high_nibble_less: "unat (drop_bit 4 (v :: byte)) < 16"
proof -
  have "unat v < 256" using unsigned_less [of v, where 'a = nat] by simp
  moreover have "unat (drop_bit 4 v) = drop_bit 4 (unat v)" by (rule unat_drop_bit_eq)
  moreover have "drop_bit 4 (unat v) = unat v div 16" by (simp add: drop_bit_eq_div)
  ultimately show ?thesis by simp
qed

lemma low_nibble_less: "unat ((v :: byte) AND 0x0f) < 16"
proof -
  have "unat (take_bit 4 v) = take_bit 4 (unat v)" by (simp only: unsigned_take_bit_eq)
  moreover have "take_bit 4 (unat v) = unat v mod 16" by (simp add: take_bit_eq_mod)
  ultimately show ?thesis unfolding low_nibble_take_bit by simp
qed

lemma hex_roundtrip: "hex_DecodeString (hex_EncodeToString bs) = Inr bs"
proof (induction bs)
  case Nil
  then show ?case by (simp add: hex_EncodeToString_def)
next
  case (Cons v bs)
  have "hex_EncodeToString (v # bs) =
      hextable ! unat (drop_bit 4 v) # hextable ! unat (v AND 0x0f) # hex_EncodeToString bs"
    by (simp add: hex_EncodeToString_def)
  then show ?case using Cons
    by (simp add: fromHexChar_hextable high_nibble_less low_nibble_less byte_nibbles)
qed

subsection \<open>The encoder writes the RLP of the item, and decoding gives it back\<close>

lemma unat_byte_small: "n < 256 \<Longrightarrow> unat (of_nat n :: byte) = n"
  by (simp add: unat_of_nat)

lemma writeUint_RLP: "i < 2 ^ 64 \<Longrightarrow> writeUint i = RLP (Str (BE i))"
proof -
  assume bound: "i < 2 ^ 64"
  consider "i = 0" | "0 < i" "i < 128" | "128 \<le> i" "i < 256" | "256 \<le> i" by linarith
  then show ?thesis
  proof cases
    case 1
    then show ?thesis by (simp add: writeUint_def BE_0)
  next
    case 2
    then show ?thesis by (simp add: writeUint_def BE_small unat_byte_small)
  next
    case 3
    then show ?thesis by (simp add: writeUint_def BE_small unat_byte_small)
  next
    case 4
    have "i < 256 ^ 8" using bound by simp
    then have le: "length (BE i) \<le> 8" by (rule length_BE_le)
    have "256 ^ 1 \<le> i" using 4 by simp
    then have ge: "1 < length (BE i)" by (rule length_BE_ge)
    show ?thesis using 4 le ge by (simp add: writeUint_def)
  qed
qed

lemma writeBigInt_RLP: "writeBigInt i = RLP (Str (BE i))"
proof (cases "i < 2 ^ 64")
  case True
  then show ?thesis by (simp add: writeBigInt_def writeUint_RLP)
next
  case False
  then have "256 ^ 8 \<le> i" by simp
  then have "8 < length (BE i)" by (rule length_BE_ge)
  then show ?thesis using False
    by (simp add: writeBigInt_def encodeStringHeader_def)
qed

lemma writeBytes_RLP: "writeBytes b = RLP (Str b)"
  by (auto simp: writeBytes_def encodeStringHeader_def)

lemma unat_word64_less: "unat (w :: 64 word) < 2 ^ 64"
  using unsigned_less [of w, where 'a = nat] by simp

lemma unat_byte_less: "unat (w :: byte) < 256"
  using unsigned_less [of w, where 'a = nat] by simp

lemma encodeVal_RLP:
  "nonNegative v \<Longrightarrow> encodeVal v = Inr (RLP (itemOf v))"
  "list_all nonNegative vs \<Longrightarrow> encodeVals vs = Inr (concat (map (\<lambda>v. RLP (itemOf v)) vs))"
proof (induction v and vs rule: encodeVal_encodeVals.induct)
  case (1 i)
  then show ?case by (simp add: writeBigInt_RLP)
next
  case (2 i)
  have "writeUint (unat i) = RLP (Str (BE (unat i)))"
    by (rule writeUint_RLP) (rule unat_word64_less)
  then show ?case by (simp del: RLP.simps)
next
  case (3 i)
  have "unat i < 2 ^ 64" using unat_byte_less [of i] by simp
  then have "writeUint (unat i) = RLP (Str (BE (unat i)))" by (rule writeUint_RLP)
  then show ?case by (simp del: RLP.simps)
next
  case (4 a)
  then show ?case by (simp add: writeBytes_RLP)
next
  case (5 b)
  then show ?case by (simp add: writeBytes_RLP)
next
  case (6 vs)
  then show ?case by (simp add: listHeader_def comp_def Let_def)
next
  case 7
  then show ?case by simp
next
  case (8 v vs)
  then show ?case by simp
qed

lemma itemOf_generic: "itemOf (generic x) = x"
  by (induction x) (simp_all add: map_idI)

lemma nonNegative_generic: "nonNegative (generic x)"
  by (induction x) (simp_all add: list_all_iff)

lemma readSize_BE:
  assumes "56 \<le> n"
  shows "readSize (length (BE n)) (BE n @ rest) = Some (n, rest)"
proof -
  have pos: "0 < n" using assms by simp
  then have ne: "BE n \<noteq> []" by (rule BE_nonempty)
  have hd: "unat (hd (BE n)) \<noteq> 0" using pos by (rule hd_BE_nonzero)
  show ?thesis using assms ne hd
    by (simp add: readSize_def SetBytes_BE)
qed

lemma length_BE_length:
  assumes "56 \<le> n" "n < 2 ^ 64"
  shows "1 \<le> length (BE n) \<and> length (BE n) \<le> 8"
proof -
  have "n < 256 ^ 8" using assms by simp
  then have "length (BE n) \<le> 8" by (rule length_BE_le)
  moreover have "BE n \<noteq> []" using assms by (simp add: BE_eq_Nil)
  ultimately show ?thesis by (cases "BE n") auto
qed

lemma decodeItem_Str:
  assumes "length b < 2 ^ 64"
  shows "decodeItem (Suc f) (RLP (Str b) @ rest) = Some (Bytes b, rest)"
proof -
  consider "length b = 1" "unat (hd b) < 128" | "\<not> (length b = 1 \<and> unat (hd b) < 128)" "length b < 56"
    | "\<not> (length b = 1 \<and> unat (hd b) < 128)" "56 \<le> length b" by linarith
  then show ?thesis
  proof cases
    case 1
    then obtain c where b: "b = [c]" by (cases b) auto
    with 1 show ?thesis by simp
  next
    case 2
    have "length b = 1 \<Longrightarrow> hd (b @ rest) = hd b" by (cases b) auto
    with 2 show ?thesis by (auto simp add: unat_byte_small Let_def simp del: of_nat_add)
  next
    case 3
    let ?k = "length (BE (length b))"
    have k: "1 \<le> ?k \<and> ?k \<le> 8" using 3 assms by (intro length_BE_length) auto
    have u: "unat (of_nat (183 + ?k) :: byte) = 183 + ?k" using k by (simp add: unat_byte_small del: of_nat_add)
    have rs: "readSize ?k (BE (length b) @ b @ rest) = Some (length b, b @ rest)"
      using 3 by (simp add: readSize_BE)
    show ?thesis using 3 k
      by (auto simp add: Let_def u rs BE_eq_Nil simp del: of_nat_add)
  qed
qed


lemma decodeItem_Lst:
  assumes "length (concat (map RLP xs)) < 2 ^ 64"
  shows "decodeItem (Suc f) (RLP (Lst xs) @ rest) =
           (case decodeList f (concat (map RLP xs)) of
              None \<Rightarrow> None
            | Some vs \<Rightarrow> Some (Slice vs, rest))"
proof (cases "length (concat (map RLP xs)) < 56")
  case True
  then show ?thesis
    by (simp add: unat_byte_small Let_def split: option.splits del: of_nat_add)
next
  case False
  let ?s = "concat (map RLP xs)"
  let ?k = "length (BE (length ?s))"
  have k: "1 \<le> ?k \<and> ?k \<le> 8" using False assms by (intro length_BE_length) auto
  have u: "unat (of_nat (247 + ?k) :: byte) = 247 + ?k"
    using k by (simp add: unat_byte_small del: of_nat_add)
  have rs: "readSize ?k (BE (length ?s) @ ?s @ rest) = Some (length ?s, ?s @ rest)"
    using False by (simp add: readSize_BE)
  have enc: "RLP (Lst xs) @ rest = of_nat (247 + ?k) # (BE (length ?s) @ ?s @ rest)"
    using False by (simp add: Let_def del: of_nat_add)
  have branch: "\<not> 247 + ?k < 128" "\<not> 247 + ?k < 184" "\<not> 247 + ?k < 192" "\<not> 247 + ?k < 248"
    "247 + ?k - 247 = ?k"
    using k by auto
  have "decodeItem (Suc f) (of_nat (247 + ?k) # (BE (length ?s) @ ?s @ rest)) =
          (case decodeList f ?s of None \<Rightarrow> None | Some vs \<Rightarrow> Some (Slice vs, rest))"
    unfolding decodeItem.simps Let_def u
    by (simp only: branch if_False rs option.case prod.case) (simp split: option.splits)
  then show ?thesis by (simp only: enc)
qed

lemma RLP_nonempty: "RLP x \<noteq> []"
  by (cases x) (auto simp: Let_def)

lemma length_Str_le: "length b \<le> length (RLP (Str b))"
  by simp

lemma length_Lst_less: "length (concat (map RLP xs)) < length (RLP (Lst xs))"
  by (simp add: Let_def)

lemma decodeList_items:
  assumes IH: "\<And>x f rest. x \<in> set xs \<Longrightarrow> length (RLP x) < 2 ^ 64 \<Longrightarrow> 2 * length (RLP x) \<le> f
                 \<Longrightarrow> decodeItem f (RLP x @ rest) = Some (generic x, rest)"
    and "length (concat (map RLP xs)) < 2 ^ 64"
    and "2 * length (concat (map RLP xs)) + 1 \<le> g"
  shows "decodeList g (concat (map RLP xs)) = Some (map generic xs)"
  using assms
proof (induction xs arbitrary: g)
  case Nil
  then obtain g' where "g = Suc g'" by (cases g) auto
  then show ?case by simp
next
  case (Cons y ys)
  then obtain g' where g: "g = Suc g'" by (cases g) auto
  let ?r = "concat (map RLP ys)"
  have ylen: "1 \<le> length (RLP y)" using RLP_nonempty [of y] by (cases "RLP y") auto
  have fuel: "2 * (length (RLP y) + length ?r) \<le> g'" using Cons.prems(3) g by simp
  have y64: "length (RLP y) < 2 ^ 64" using Cons.prems(2) by simp
  have r64: "length ?r < 2 ^ 64" using Cons.prems(2) by simp
  have "decodeItem g' (RLP y @ ?r) = Some (generic y, ?r)"
    using fuel y64 by (intro Cons.prems(1)) auto
  moreover have "decodeList g' ?r = Some (map generic ys)"
  proof (rule Cons.IH)
    show "2 * length ?r + 1 \<le> g'" using fuel ylen by simp
    show "length ?r < 2 ^ 64" by (rule r64)
    show "decodeItem f (RLP x @ rest) = Some (generic x, rest)"
      if "x \<in> set ys" "length (RLP x) < 2 ^ 64" "2 * length (RLP x) \<le> f" for x f rest
      using that by (intro Cons.prems(1)) auto
  qed
  ultimately show ?case using g RLP_nonempty [of y] by simp
qed

lemma decodeItem_RLP:
  "length (RLP x) < 2 ^ 64 \<Longrightarrow> 2 * length (RLP x) \<le> f
     \<Longrightarrow> decodeItem f (RLP x @ rest) = Some (generic x, rest)"
proof (induction x arbitrary: f rest)
  case (Str b)
  have "1 \<le> length (RLP (Str b))" using RLP_nonempty [of "Str b"] by (cases "RLP (Str b)") auto
  then obtain f' where f: "f = Suc f'" using Str.prems(2) by (cases f) auto
  have "length b < 2 ^ 64" using Str.prems(1) length_Str_le [of b] by linarith
  then show ?case unfolding f by (simp only: decodeItem_Str generic.simps)
next
  case (Lst xs)
  let ?s = "concat (map RLP xs)"
  have less: "length ?s < length (RLP (Lst xs))" by (rule length_Lst_less)
  then obtain f' where f: "f = Suc f'" using Lst.prems(2) by (cases f) auto
  have s64: "length ?s < 2 ^ 64" using less Lst.prems(1) by linarith
  have fuel: "2 * length ?s + 1 \<le> f'" using less Lst.prems(2) f by linarith
  have "decodeList f' ?s = Some (map generic xs)"
    using Lst.IH s64 fuel by (intro decodeList_items) auto
  then show ?case unfolding f by (simp only: decodeItem_Lst [OF s64] generic.simps option.case)
qed

lemma rlp_DecodeBytes_RLP:
  assumes "length (RLP (Lst xs)) < 2 ^ 64"
  shows "rlp_DecodeBytes (RLP (Lst xs)) = Inr (map generic xs)"
proof -
  have "decodeItem (2 * length (RLP (Lst xs))) (RLP (Lst xs) @ []) = Some (generic (Lst xs), [])"
    using assms by (intro decodeItem_RLP) auto
  then show ?thesis by (simp add: rlp_DecodeBytes_def del: RLP.simps)
qed

lemma map_itemOf_generic: "map itemOf (map generic xs) = xs"
  by (induction xs) (simp_all add: itemOf_generic)

lemma encodeVal_appended:
  assumes "list_all nonNegative extra"
  shows "encodeVal (Slice (map generic xs @ extra)) = Inr (RLP (Lst (xs @ map itemOf extra)))"
proof -
  have "nonNegative (Slice (map generic xs @ extra))"
    using assms by (auto simp: list_all_iff nonNegative_generic)
  then have "encodeVal (Slice (map generic xs @ extra)) = Inr (RLP (itemOf (Slice (map generic xs @ extra))))"
    by (rule encodeVal_RLP)
  moreover have "itemOf (Slice (map generic xs @ extra)) = Lst (xs @ map itemOf extra)"
    by (simp only: itemOf.simps map_append map_itemOf_generic)
  ultimately show ?thesis by (simp only:)
qed

subsection \<open>The builder and the signer in terms of the envelope\<close>

lemma authTupleMessage_spec:
  assumes "0 \<le> chainId"
  shows "authTupleMessage cr chainId addr nonce =
           Keccak256 cr (0x05 # RLP (Lst [Str (BE (nat chainId)), Str addr, Str (BE (unat nonce))]))"
proof -
  have "nonNegative (Slice [BigInt chainId, Address addr, Uint64 nonce])" using assms by simp
  then have "encodeVal (Slice [BigInt chainId, Address addr, Uint64 nonce]) =
               Inr (RLP (itemOf (Slice [BigInt chainId, Address addr, Uint64 nonce])))"
    by (rule encodeVal_RLP)
  then show ?thesis
    by (simp add: authTupleMessage_def rlp_Encode_def MAGIC_def del: RLP.simps encodeVal.simps)
qed

lemma build7702Tx_spec:
  assumes "0 \<le> chainId" "0 \<le> gasTip" "0 \<le> gasFeeCap"
    and "Sign cr (authTupleMessage cr chainId contractAddr userNonce) userPriv = Inr sig"
    and "65 \<le> length sig"
  shows "build7702Tx cr chainId userPriv relayerNonce userNonce gasTip gasFeeCap gasLimit contractAddr txData =
           Ok (hex_EncodeToString (0x04 # RLP (Lst
                 (envelope chainId relayerNonce gasTip gasFeeCap gasLimit contractAddr txData userNonce sig))))"
proof -
  let ?rawTx = "Slice
                     [BigInt chainId, Uint64 relayerNonce, BigInt gasTip, BigInt gasFeeCap,
                      Uint64 gasLimit, Address contractAddr, BigInt 0, Bytes txData,
                      Slice [],
                      Slice [Slice [BigInt chainId, Address contractAddr, Uint64 userNonce,
                                    Uint8 (sig ! 64), BigInt (int (SetBytes (take 32 sig))),
                                    BigInt (int (SetBytes (take 32 (drop 32 sig))))]]]"
  have "nonNegative ?rawTx" using assms by simp
  then have "encodeVal ?rawTx = Inr (RLP (itemOf ?rawTx))" by (rule encodeVal_RLP)
  moreover have "itemOf ?rawTx =
      Lst (envelope chainId relayerNonce gasTip gasFeeCap gasLimit contractAddr txData userNonce sig)"
    by (simp add: envelope_def authEntry_def BE_0)
  ultimately have enc: "rlp_EncodeToBytes ?rawTx = Inr (RLP (Lst
      (envelope chainId relayerNonce gasTip gasFeeCap gasLimit contractAddr txData userNonce sig)))"
    by (simp only: rlp_EncodeToBytes_def)
  show ?thesis
    using assms(5)
    by (simp add: build7702Tx_def Let_def assms(4) enc SET_CODE_TX_TYPE_def del: RLP.simps)
qed

lemma signEIP7702Tx_spec:
  assumes "length (RLP (Lst flds)) < 2 ^ 64"
  shows "signEIP7702Tx cr (hex_EncodeToString (0x04 # RLP (Lst flds))) relayerPriv =
           (case Sign cr (Keccak256 cr (0x04 # RLP (Lst flds))) relayerPriv of
              Inl e \<Rightarrow> Err e
            | Inr sig \<Rightarrow>
                if length sig < 65 then Panic
                else Ok (hex_EncodeToString (0x04 # RLP (Lst (flds @ outerSignature sig)))))"
proof -
  have dec: "rlp_DecodeBytes (RLP (Lst flds)) = Inr (map generic flds)"
    using assms by (rule rlp_DecodeBytes_RLP)
  have enc: "rlp_EncodeToBytes (Slice (map generic flds @
               [Uint8 (sig ! 64), BigInt (int (SetBytes (take 32 sig))),
                BigInt (int (SetBytes (take 32 (drop 32 sig))))])) =
             Inr (RLP (Lst (flds @ outerSignature sig)))" for sig
    unfolding rlp_EncodeToBytes_def
    by (subst encodeVal_appended) (simp_all add: outerSignature_def)
  show ?thesis
    unfolding signEIP7702Tx_def Let_def hex_roundtrip
    by (simp add: dec enc del: RLP.simps split: sum.splits)
qed

lemma ToLower_length: "length (ToLower s) = length s"
  by (simp add: ToLower_def)

section \<open>The code inspector\<close>

text \<open>
  C5.  Every fetched code string falls in exactly one of three classes.  The empty string
  and the bare \<open>0x\<close> are safe.  Any other string whose hex, lowered and without the
  \<open>0x\<close> prefix, begins with \<open>ef0100\<close> is delegated, and the address reported is
  \<open>0x\<close> followed by what comes after the six marker characters: for a designator of the
  marker and 40 hex characters, exactly those 20 bytes.  Every other string is unclassified
  contract code.  \<open>Check\<close> reports this class whenever the address is valid and the node
  answers without an error.
\<close>

theorem code_classification:
  "(result = [] \<or> result = ''0x'' \<longrightarrow> classifyCode result = Safe) \<and>
   (result \<noteq> [] \<and> result \<noteq> ''0x'' \<and> HasPrefix (ToLower (TrimPrefix result ''0x'')) ''ef0100''
      \<longrightarrow> classifyCode result = Delegated (''0x'' @ drop 6 (TrimPrefix result ''0x''))) \<and>
   (result \<noteq> [] \<and> result \<noteq> ''0x'' \<and> \<not> HasPrefix (ToLower (TrimPrefix result ''0x'')) ''ef0100''
      \<longrightarrow> classifyCode result = ContractCode) \<and>
   (ToLower marker = ''ef0100'' \<and> length delegate = 40
      \<longrightarrow> classifyCode (''0x'' @ marker @ delegate) = Delegated (''0x'' @ delegate)) \<and>
   (address \<noteq> [] \<and> IsHexAddress address
      \<longrightarrow> Check address (Response \<lparr>Result = result, Error = None\<rparr>) = Ok (classifyCode result))"
proof -
  have strip: "(if HasPrefix result ''0x'' then drop 2 result else result) = TrimPrefix result ''0x''"
    by (simp add: TrimPrefix_def numeral_2_eq_2)
  have safe: "result = [] \<or> result = ''0x'' \<longrightarrow> classifyCode result = Safe"
    by (auto simp: classifyCode_def)
  have delegated: "result \<noteq> [] \<and> result \<noteq> ''0x'' \<and> HasPrefix (ToLower (TrimPrefix result ''0x'')) ''ef0100''
      \<longrightarrow> classifyCode result = Delegated (''0x'' @ drop 6 (TrimPrefix result ''0x''))"
    unfolding classifyCode_def strip Let_def by simp
  have other: "result \<noteq> [] \<and> result \<noteq> ''0x'' \<and> \<not> HasPrefix (ToLower (TrimPrefix result ''0x'')) ''ef0100''
      \<longrightarrow> classifyCode result = ContractCode"
    unfolding classifyCode_def strip Let_def by simp
  have designator: "ToLower marker = ''ef0100'' \<and> length delegate = 40
      \<longrightarrow> classifyCode (''0x'' @ marker @ delegate) = Delegated (''0x'' @ delegate)"
  proof (intro impI, elim conjE)
    assume low: "ToLower marker = ''ef0100''" and d: "length delegate = 40"
    have m: "length marker = 6" using ToLower_length [of marker] low by simp
    have "ToLower (marker @ delegate) = ''ef0100'' @ ToLower delegate"
      using low by (simp add: ToLower_def)
    then show "classifyCode (''0x'' @ marker @ delegate) = Delegated (''0x'' @ delegate)"
      using m d by (auto simp: classifyCode_def HasPrefix_def Let_def)
  qed
  have check: "address \<noteq> [] \<and> IsHexAddress address
      \<longrightarrow> Check address (Response \<lparr>Result = result, Error = None\<rparr>) = Ok (classifyCode result)"
    by (simp add: Check_def)
  show ?thesis
    using safe delegated other designator check by (intro conjI)
qed

text \<open>The three classes on concrete codes, the designator in mixed case.\<close>

theorem code_classification_witness:
  "classifyCode [] = Safe \<and> classifyCode ''0x'' = Safe \<and>
   classifyCode ''0xEF01000123456789abcdef0123456789ABCDEF01234567'' =
     Delegated ''0x0123456789abcdef0123456789ABCDEF01234567'' \<and>
   classifyCode ''0x6001'' = ContractCode \<and>
   Check ''0x00000000000000000000000000000000000000aa'' (Response \<lparr>Result = ''0x6001'', Error = None\<rparr>)
     = Ok ContractCode"
  using code_classification [where result = "[]" and marker = "''EF0100''"
        and delegate = "''0123456789abcdef0123456789ABCDEF01234567''"
        and address = "''0x00000000000000000000000000000000000000aa''"]
    code_classification [where result = "''0x''" and marker = "''EF0100''"
        and delegate = "''0123456789abcdef0123456789ABCDEF01234567''"
        and address = "''0x00000000000000000000000000000000000000aa''"]
    code_classification [where result = "''0x6001''" and marker = "''EF0100''"
        and delegate = "''0123456789abcdef0123456789ABCDEF01234567''"
        and address = "''0x00000000000000000000000000000000000000aa''"]
  by (simp add: HasPrefix_def TrimPrefix_def ToLower_def toLowerChar_def IsHexAddress_def
      has0xPrefix_def isHex_def isHexCharacter_def)

section \<open>The fee estimator\<close>

text \<open>
  C4.  When both EIP-1559 reads succeed and the suggested priority fee parses to a value
  below the floor of 0.1 * 10^9 = 100000000, the estimator returns exactly the floor as
  priority fee, and as fee cap twice the base fee plus the floor: the cap is computed
  from the raised fee.  In the legacy fallback a gas price below the floor is raised to
  the floor and returned as both values.  A failed priority-fee read leads to the fallback.
\<close>

theorem fee_floor:
  "(priorityFeeResult \<noteq> [] \<and> baseFee \<noteq> [] \<and>
    fst (SetString16 (TrimPrefix priorityFeeResult ''0x'')) < 100000000
      \<longrightarrow> getSuggestedGasFees (Unmarshalled None priorityFeeResult) (Unmarshalled None baseFee)
            gasPriceReply =
          Ok (100000000, 2 * fst (SetString16 (TrimPrefix baseFee ''0x'')) + 100000000)) \<and>
   (getGasPrice gasPriceReply = Ok gasPrice \<and> gasPrice < 100000000
      \<longrightarrow> fallbackGasFees gasPriceReply = Ok (100000000, 100000000)) \<and>
   getSuggestedGasFees (CallFailed e) blockReply gasPriceReply = fallbackGasFees gasPriceReply"
  by (simp add: getSuggestedGasFees_def fallbackGasFees_def minPriorityFee_def Let_def)

text \<open>
  A suggested fee of 99999999 (\<open>0x5f5e0ff\<close>) over a base fee of 10^9, and a legacy gas
  price of 1.
\<close>

theorem fee_floor_witness:
  "getSuggestedGasFees (Unmarshalled None ''0x5f5e0ff'') (Unmarshalled None ''0x3b9aca00'')
     (CallFailed ''unused'') = Ok (100000000, 2100000000) \<and>
   fallbackGasFees (Unmarshalled None ''0x1'') = Ok (100000000, 100000000)"
  using fee_floor [where priorityFeeResult = "''0x5f5e0ff''" and baseFee = "''0x3b9aca00''"
        and gasPriceReply = "CallFailed ''unused''" and gasPrice = 1 and e = "''e''"
        and blockReply = "CallFailed ''e''"]
    fee_floor [where priorityFeeResult = "''0x5f5e0ff''" and baseFee = "''0x3b9aca00''"
        and gasPriceReply = "Unmarshalled None ''0x1''" and gasPrice = 1 and e = "''e''"
        and blockReply = "CallFailed ''e''"]
  by (simp add: TrimPrefix_def HasPrefix_def SetString16_def hexDigit_def getGasPrice_def)

section \<open>Confirmation by polling\<close>

lemma waitMined_pending:
  "pending (receipts i) \<Longrightarrow> waitMined (Suc n) i receipts txHash = waitMined n (Suc i) receipts txHash"
  by (auto simp: pending_def polledStatus_def getTransactionReceipt_def
      split: rpc_reply.splits option.splits outcome.splits)

lemma waitMined_mined:
  "polledStatus (receipts i) = Some ''0x1'' \<Longrightarrow> waitMined (Suc n) i receipts txHash = (Success, Suc i)"
  by (auto simp: polledStatus_def getTransactionReceipt_def
      split: rpc_reply.splits option.splits)

lemma waitMined_reverted:
  "polledStatus (receipts i) = Some ''0x0''
     \<Longrightarrow> waitMined (Suc n) i receipts txHash = (Failed (''transaction failed: '' @ txHash), Suc i)"
  by (auto simp: polledStatus_def getTransactionReceipt_def
      split: rpc_reply.splits option.splits)

lemma waitMined_skip:
  "(\<And>j. j < k \<Longrightarrow> pending (receipts (i + j)))
     \<Longrightarrow> waitMined (k + n) i receipts txHash = waitMined n (i + k) receipts txHash"
proof (induction k arbitrary: i)
  case 0
  show ?case by (simp only: add_0 add_0_right)
next
  case (Suc k)
  have pend: "pending (receipts i)" using Suc.prems [of 0] by simp
  have "waitMined (Suc k + n) i receipts txHash = waitMined (Suc (k + n)) i receipts txHash"
    by (simp only: add_Suc)
  also have "\<dots> = waitMined (k + n) (Suc i) receipts txHash"
    using pend by (rule waitMined_pending)
  also have "\<dots> = waitMined n (Suc i + k) receipts txHash"
  proof (rule Suc.IH)
    fix j assume "j < k"
    then show "pending (receipts (Suc i + j))" using Suc.prems [of "Suc j"] by simp
  qed
  also have "\<dots> = waitMined n (i + Suc k) receipts txHash"
    by (simp only: add_Suc add_Suc_right)
  finally show ?case .
qed

lemma waitMined_first:
  assumes "k < 60" and "\<forall>j<k. pending (receipts j)"
  shows "\<exists>n. waitMined 60 0 receipts txHash = waitMined (Suc n) k receipts txHash"
proof -
  obtain n where n: "60 = k + Suc n" using assms(1) by (metis less_imp_Suc_add add_Suc_right)
  have "waitMined (k + Suc n) 0 receipts txHash = waitMined (Suc n) (0 + k) receipts txHash"
    using assms(2) by (intro waitMined_skip) simp
  then have "waitMined 60 0 receipts txHash = waitMined (Suc n) k receipts txHash"
    by (simp only: n [symmetric] add_0)
  then show ?thesis ..
qed

lemma waitMined_exhausted:
  assumes "\<forall>j<60. pending (receipts j)"
  shows "waitMined 60 0 receipts txHash = (TimedOut, 60)"
proof -
  have "waitMined (60 + 0) 0 receipts txHash = waitMined 0 (0 + 60) receipts txHash"
    using assms by (intro waitMined_skip) simp
  then show ?thesis by (simp only: add_0 add_0_right waitMined.simps(1))
qed

text \<open>
  C6.  Let poll \<open>k\<close> (counted from 0, below 60) be the first that is not pending.  If it
  shows status \<open>0x1\<close>, the loop ends in \<open>Success\<close> after \<open>k + 1\<close> reads, five seconds
  apart, and \<open>Clear\<close> returns nil.  If it shows \<open>0x0\<close>, the loop ends in \<open>Failed\<close> and
  \<open>Clear\<close> returns the error \<open>transaction failed:\<close> followed by the transaction hash.  If
  all 60 polls are pending, the loop ends in \<open>TimedOut\<close> after 300 seconds, and \<open>Clear\<close>
  returns nil after printing the command to check by hand: no error is reported.
\<close>

theorem confirmation_outcomes:
  "(k < 60 \<and> (\<forall>j<k. pending (receipts j)) \<and> polledStatus (receipts k) = Some ''0x1''
      \<longrightarrow> waitMined 60 0 receipts txHash = (Success, Suc k) \<and>
          Clear_afterBroadcast receipts txHash =
            \<lparr>secondsSlept = 5 * Suc k, hintPrinted = True, returned = None\<rparr>) \<and>
   (k < 60 \<and> (\<forall>j<k. pending (receipts j)) \<and> polledStatus (receipts k) = Some ''0x0''
      \<longrightarrow> waitMined 60 0 receipts txHash = (Failed (''transaction failed: '' @ txHash), Suc k) \<and>
          Clear_afterBroadcast receipts txHash =
            \<lparr>secondsSlept = 5 * Suc k, hintPrinted = False,
             returned = Some (''transaction failed: '' @ txHash)\<rparr>) \<and>
   ((\<forall>j<60. pending (receipts j))
      \<longrightarrow> waitMined 60 0 receipts txHash = (TimedOut, 60) \<and>
          Clear_afterBroadcast receipts txHash =
            \<lparr>secondsSlept = 300, hintPrinted = True, returned = None\<rparr>)"
proof (intro conjI impI)
  assume a: "k < 60 \<and> (\<forall>j<k. pending (receipts j)) \<and> polledStatus (receipts k) = Some ''0x1''"
  then obtain n where "waitMined 60 0 receipts txHash = waitMined (Suc n) k receipts txHash"
    using waitMined_first [of k receipts txHash] by blast
  then show w: "waitMined 60 0 receipts txHash = (Success, Suc k)"
    using a by (simp only: waitMined_mined)
  show "Clear_afterBroadcast receipts txHash =
            \<lparr>secondsSlept = 5 * Suc k, hintPrinted = True, returned = None\<rparr>"
    by (simp add: Clear_afterBroadcast_def w del: waitMined.simps)
next
  assume a: "k < 60 \<and> (\<forall>j<k. pending (receipts j)) \<and> polledStatus (receipts k) = Some ''0x0''"
  then obtain n where "waitMined 60 0 receipts txHash = waitMined (Suc n) k receipts txHash"
    using waitMined_first [of k receipts txHash] by blast
  then show w: "waitMined 60 0 receipts txHash = (Failed (''transaction failed: '' @ txHash), Suc k)"
    using a by (simp only: waitMined_reverted)
  show "Clear_afterBroadcast receipts txHash =
            \<lparr>secondsSlept = 5 * Suc k, hintPrinted = False,
             returned = Some (''transaction failed: '' @ txHash)\<rparr>"
    by (simp add: Clear_afterBroadcast_def w del: waitMined.simps)
next
  assume a: "\<forall>j<60. pending (receipts j)"
  then show w: "waitMined 60 0 receipts txHash = (TimedOut, 60)" by (rule waitMined_exhausted)
  show "Clear_afterBroadcast receipts txHash =
            \<lparr>secondsSlept = 300, hintPrinted = True, returned = None\<rparr>"
    by (simp add: Clear_afterBroadcast_def w del: waitMined.simps)
qed


text \<open>
  A receipt with status \<open>0x1\<close> on the third poll, one with \<open>0x0\<close> on the first, and no
  receipt at all.
\<close>

theorem confirmation_outcomes_witness:
  "Clear_afterBroadcast
     (\<lambda>i. if i = 2
        then Unmarshalled None (Some \<lparr>TransactionHash = ''0xabc'', TransactionIndex = ''0x0'',
               BlockHash = ''0xdef'', BlockNumber = ''0x10'', Status = ''0x1'', GasUsed = ''0x5208'',
               CumulativeGasUsed = ''0x5208''\<rparr>)
        else Unmarshalled None None) ''0xabc''
     = \<lparr>secondsSlept = 15, hintPrinted = True, returned = None\<rparr> \<and>
   Clear_afterBroadcast
     (\<lambda>i. Unmarshalled None (Some \<lparr>TransactionHash = ''0xabc'', TransactionIndex = ''0x0'',
               BlockHash = ''0xdef'', BlockNumber = ''0x10'', Status = ''0x0'', GasUsed = ''0x5208'',
               CumulativeGasUsed = ''0x5208''\<rparr>)) ''0xabc''
     = \<lparr>secondsSlept = 5, hintPrinted = False, returned = Some ''transaction failed: 0xabc''\<rparr> \<and>
   Clear_afterBroadcast (\<lambda>i. Unmarshalled None None) ''0xabc''
     = \<lparr>secondsSlept = 300, hintPrinted = True, returned = None\<rparr>"
  using confirmation_outcomes [of 2
      "\<lambda>i. if i = 2
        then Unmarshalled None (Some \<lparr>TransactionHash = ''0xabc'', TransactionIndex = ''0x0'',
               BlockHash = ''0xdef'', BlockNumber = ''0x10'', Status = ''0x1'', GasUsed = ''0x5208'',
               CumulativeGasUsed = ''0x5208''\<rparr>)
        else Unmarshalled None None" "''0xabc''"]
    confirmation_outcomes [of 0
      "\<lambda>i. Unmarshalled None (Some \<lparr>TransactionHash = ''0xabc'', TransactionIndex = ''0x0'',
               BlockHash = ''0xdef'', BlockNumber = ''0x10'', Status = ''0x0'', GasUsed = ''0x5208'',
               CumulativeGasUsed = ''0x5208''\<rparr>)" "''0xabc''"]
    confirmation_outcomes [of 0 "\<lambda>i. Unmarshalled None None" "''0xabc''"]
  by (simp add: pending_def polledStatus_def del: waitMined.simps)

section \<open>Hex integers from the node\<close>

lemma isHexCharacter_cases:
  "isHexCharacter c \<Longrightarrow> c \<noteq> CHR ''-'' \<and> c \<noteq> CHR ''+'' \<and> (\<exists>d. hexDigit c = Some d \<and> digitOf c = d)"
  by (auto simp: isHexCharacter_def hexDigit_def digitOf_def)

lemma scanDigits_hex:
  "list_all isHexCharacter ds
     \<Longrightarrow> scanDigits z count ds = (z * 16 ^ length ds + hexValue ds, count + length ds, [])"
proof (induction ds arbitrary: z count)
  case Nil
  then show ?case by simp
next
  case (Cons c cs)
  then obtain d where d: "hexDigit c = Some d" "digitOf c = d"
    using isHexCharacter_cases [of c] by auto
  have "scanDigits z count (c # cs) = scanDigits (z * 16 + d) (Suc count) cs"
    by (simp add: d)
  also have "\<dots> = ((z * 16 + d) * 16 ^ length cs + hexValue cs, Suc count + length cs, [])"
    using Cons by simp
  finally show ?case by (simp add: d algebra_simps)
qed

lemma SetString16_hex:
  assumes "list_all isHexCharacter ds"
  shows "SetString16 ds = (int (hexValue ds), ds \<noteq> [])"
proof (cases ds)
  case Nil
  then show ?thesis by (simp add: SetString16_def)
next
  case (Cons c cs)
  have c: "c \<noteq> CHR ''-''" "c \<noteq> CHR ''+''" using assms Cons isHexCharacter_cases [of c] by auto
  have "scanDigits 0 0 ds = (hexValue ds, length ds, [])"
    using scanDigits_hex [OF assms, of 0 0] by simp
  then show ?thesis using Cons c by (simp add: SetString16_def)
qed

lemma Int64_nonneg: "Int64 (int n) = word_of_nat n"
  by (simp add: Int64_def)

lemma sint_word_of_nat_64:
  assumes "n < 2 ^ 63"
  shows "sint (word_of_nat n :: 64 word) = int n"
proof -
  have "signed_take_bit 63 (int n) = int n"
    using assms by (intro signed_take_bit_int_eq_self) (auto simp: of_nat_less_numeral_power_cancel_iff)
  then show ?thesis by (simp add: signed_of_nat)
qed

lemma unat_word_of_nat_64: "unat (word_of_nat n :: 64 word) = n mod 2 ^ 64"
  by (simp add: unat_of_nat)

text \<open>
  C8, as the code has it.  For every string of hexadecimal digits after the \<open>0x\<close> prefix,
  \<open>getChainID\<close> and \<open>getGasPrice\<close> return exactly the integer the digits encode,
  whatever its size.  \<open>getNonce\<close> returns an \<open>int64\<close>: the low 64 bits of that integer.
  As the \<open>uint64\<close> the callers convert it to, it is the integer itself when that is below
  2^64; as the \<open>int64\<close> returned, when it is below 2^63.
\<close>

theorem hex_integers_parsed:
  assumes "list_all isHexCharacter ds"
  shows "getChainID (Unmarshalled None (''0x'' @ ds)) = Ok (int (hexValue ds)) \<and>
         getGasPrice (Unmarshalled None (''0x'' @ ds)) = Ok (int (hexValue ds)) \<and>
         getNonce (Unmarshalled None (''0x'' @ ds)) = Ok (word_of_nat (hexValue ds)) \<and>
         unat (word_of_nat (hexValue ds) :: 64 word) = hexValue ds mod 2 ^ 64 \<and>
         (hexValue ds < 2 ^ 64 \<longrightarrow> unat (word_of_nat (hexValue ds) :: 64 word) = hexValue ds) \<and>
         (hexValue ds < 2 ^ 63 \<longrightarrow> sint (word_of_nat (hexValue ds) :: 64 word) = int (hexValue ds))"
  using SetString16_hex [OF assms]
  by (simp add: getChainID_def getGasPrice_def getNonce_def Int64_nonneg sint_word_of_nat_64
      unat_word_of_nat_64)

text \<open>
  A chain id and gas price of 2^64, and the nonce 31.
\<close>

theorem hex_integers_parsed_witness:
  "getChainID (Unmarshalled None ''0x10000000000000000'') = Ok 18446744073709551616 \<and>
   getGasPrice (Unmarshalled None ''0x10000000000000000'') = Ok 18446744073709551616 \<and>
   getNonce (Unmarshalled None ''0x1F'') = Ok 31 \<and> sint (31 :: 64 word) = 31"
  using hex_integers_parsed [where ds = "''10000000000000000''"]
    hex_integers_parsed [where ds = "''1F''"]
  by (simp add: isHexCharacter_def hexDigit_def digitOf_def)

text \<open>
  C8 as stated fails for the nonce: the result \<open>0x10000000000000000\<close> encodes 2^64 and
  \<open>getNonce\<close> returns 0.
\<close>

theorem nonce_truncated_counterexample:
  "getNonce (Unmarshalled None ''0x10000000000000000'') = Ok 0 \<and>
   sint (0 :: 64 word) \<noteq> int (hexValue ''10000000000000000'')"
  by (simp add: getNonce_def SetString16_def hexDigit_def digitOf_def Int64_def)

text \<open>
  C10.  On a decoded response, \<open>getChainID\<close> and \<open>getNonce\<close> panic exactly when the
  result string has fewer than two characters, as it has when the response carries no
  result (an error-only response decodes to the empty string): they panic and return no
  error.  A result that starts with \<open>0x\<close> never panics.
\<close>

theorem short_result_panics:
  "(getChainID (Unmarshalled None result) = Panic \<longleftrightarrow> length result < 2) \<and>
   (getNonce (Unmarshalled None result) = Panic \<longleftrightarrow> length result < 2) \<and>
   (HasPrefix result ''0x''
      \<longrightarrow> getChainID (Unmarshalled None result) = Ok (fst (SetString16 (drop 2 result))) \<and>
          getNonce (Unmarshalled None result) = Ok (Int64 (fst (SetString16 (drop 2 result))))) \<and>
   getChainID (Unmarshalled None []) = Panic \<and>
   getNonce (Unmarshalled None []) = Panic"
proof -
  have "HasPrefix result ''0x'' \<Longrightarrow> \<not> length result < 2"
    by (cases result; cases "tl result") (auto simp: HasPrefix_def)
  then show ?thesis
    by (auto simp: getChainID_def getNonce_def)
qed

text \<open>
  The one-character result \<open>0\<close> and the result \<open>0x1\<close>.
\<close>

theorem short_result_panics_witness:
  "getChainID (Unmarshalled None ''0'') = Panic \<and> getNonce (Unmarshalled None ''0'') = Panic \<and>
   getChainID (Unmarshalled None ''0x1'') = Ok 1 \<and> getNonce (Unmarshalled None ''0x1'') = Ok 1"
  using short_result_panics [where result = "''0''"]
    short_result_panics [where result = "''0x1''"]
  by (simp add: HasPrefix_def SetString16_def hexDigit_def Int64_def)

text \<open>
  C7.  The node answers with a body that is not JSON: \<open>json.Unmarshal\<close> fails, the
  struct stays empty, and \<open>broadcastRawTx\<close> returns the empty hash with a nil error.
\<close>

theorem broadcast_swallows_malformed_body:
  "broadcastRawTx ''04c0''
     (\<lambda>param. PostDone \<lparr>readErr = None, unmarshalErr = Some ''invalid character'',
                          resultField = [], errorMessage = []\<rparr>) = Ok []"
  by (simp add: broadcastRawTx_def)

text \<open>
  The part of C7 that the code keeps: a failed post and a non-empty error message of the
  node both come back as the error, the message verbatim.
\<close>

lemma broadcast_surfaces_errors:
  "(node (''0x'' @ rawTxHex) = PostFailed e \<longrightarrow> broadcastRawTx rawTxHex node = Err e) \<and>
   (node (''0x'' @ rawTxHex) = PostDone resp \<and> errorMessage resp \<noteq> []
      \<longrightarrow> broadcastRawTx rawTxHex node = Err (errorMessage resp))"
  by (simp add: broadcastRawTx_def)


subsection \<open>Sizes of the encoded envelope\<close>

lemma SetBytes_less: "SetBytes bs < 256 ^ length bs"
proof (induction bs rule: rev_induct)
  case Nil
  then show ?case by (simp add: SetBytes_def)
next
  case (snoc b bs)
  have "unat b < 256" by (rule unat_byte_less)
  then have "SetBytes bs * 256 + unat b < (SetBytes bs + 1) * 256" by simp
  also have "\<dots> \<le> 256 ^ length bs * 256" using snoc by (intro mult_right_mono) auto
  finally show ?case by (simp add: SetBytes_snoc)
qed

lemma length_BE_SetBytes: "length (BE (SetBytes bs)) \<le> length bs"
  using SetBytes_less [of bs] by (rule length_BE_le)

lemma length_RLP_Str_short: "length b < 56 \<Longrightarrow> length (RLP (Str b)) \<le> length b + 1"
  by simp

lemma length_RLP_Str_le: "length b < 2 ^ 64 \<Longrightarrow> length (RLP (Str b)) \<le> length b + 9"
proof (cases "length b < 56")
  case True
  then show ?thesis by simp
next
  case False
  assume "length b < 2 ^ 64"
  then have "length (BE (length b)) \<le> 8" using False by (intro length_BE_length [THEN conjunct2]) auto
  then show ?thesis using False by simp
qed

lemma length_RLP_Lst_le:
  "length (concat (map RLP xs)) < 2 ^ 64 \<Longrightarrow> length (RLP (Lst xs)) \<le> length (concat (map RLP xs)) + 9"
proof (cases "length (concat (map RLP xs)) < 56")
  case True
  then show ?thesis by (simp add: Let_def)
next
  case False
  assume "length (concat (map RLP xs)) < 2 ^ 64"
  then have "length (BE (length (concat (map RLP xs)))) \<le> 8"
    using False by (intro length_BE_length [THEN conjunct2]) auto
  then show ?thesis using False by (simp add: Let_def)
qed

lemma length_RLP_uint256:
  assumes "n < 2 ^ 256"
  shows "length (RLP (Str (BE n))) \<le> 33"
proof -
  have "n < 256 ^ 32" using assms by simp
  then have "length (BE n) \<le> 32" by (rule length_BE_le)
  then show ?thesis using length_RLP_Str_short [of "BE n"] by simp
qed

lemma length_RLP_uint64: "length (RLP (Str (BE (unat (w :: 64 word))))) \<le> 9"
proof -
  have "unat w < 256 ^ 8" using unat_word64_less [of w] by simp
  then have "length (BE (unat w)) \<le> 8" by (rule length_BE_le)
  then show ?thesis using length_RLP_Str_short [of "BE (unat w)"] by simp
qed

lemma length_RLP_uint8: "length (RLP (Str (BE (unat (w :: byte))))) \<le> 2"
proof -
  have "unat w < 256 ^ 1" using unat_byte_less [of w] by simp
  then have "length (BE (unat w)) \<le> 1" by (rule length_BE_le)
  then show ?thesis using length_RLP_Str_short [of "BE (unat w)"] by simp
qed

lemma length_RLP_sigpart:
  assumes "length bs \<le> 32"
  shows "length (BE (SetBytes bs)) \<le> 32" "length (RLP (Str (BE (SetBytes bs)))) \<le> 33"
proof -
  show le: "length (BE (SetBytes bs)) \<le> 32" using length_BE_SetBytes [of bs] assms by simp
  then show "length (RLP (Str (BE (SetBytes bs)))) \<le> 33"
    using length_RLP_Str_short [of "BE (SetBytes bs)"] by simp
qed

lemma length_authEntry:
  assumes "0 \<le> chainId" "chainId < 2 ^ 256" "length delegate = 20"
  shows "length (RLP (authEntry chainId delegate nonce sig)) \<le> 140"
proof -
  have c: "length (RLP (Str (BE (nat chainId)))) \<le> 33"
    using assms by (intro length_RLP_uint256) auto
  have d: "length (RLP (Str delegate)) \<le> 21"
    using assms length_RLP_Str_short [of delegate] by simp
  have n: "length (RLP (Str (BE (unat nonce)))) \<le> 9" by (rule length_RLP_uint64)
  have v: "length (RLP (Str (BE (unat (sig ! 64))))) \<le> 2" by (rule length_RLP_uint8)
  have r: "length (RLP (Str (BE (SetBytes (take 32 sig))))) \<le> 33"
    by (rule length_RLP_sigpart) simp
  have s: "length (RLP (Str (BE (SetBytes (take 32 (drop 32 sig)))))) \<le> 33"
    by (rule length_RLP_sigpart) simp
  let ?items = "[Str (BE (nat chainId)), Str delegate, Str (BE (unat nonce)),
          Str (BE (unat (sig ! 64))),
          Str (BE (SetBytes (take 32 sig))),
          Str (BE (SetBytes (take 32 (drop 32 sig))))]"
  have sum: "length (concat (map RLP ?items)) \<le> 131"
    using c d n v r s by (simp del: RLP.simps)
  then have "length (concat (map RLP ?items)) < 2 ^ 64" by simp
  then have "length (RLP (Lst ?items)) \<le> length (concat (map RLP ?items)) + 9"
    by (rule length_RLP_Lst_le)
  then show ?thesis using sum unfolding authEntry_def by linarith
qed

lemma length_envelope:
  assumes "0 \<le> chainId" "chainId < 2 ^ 256" "0 \<le> gasTip" "gasTip < 2 ^ 256"
    "0 \<le> gasFeeCap" "gasFeeCap < 2 ^ 256" "length delegate = 20" "length txData < 2 ^ 32"
  shows "length (RLP (Lst (envelope chainId relayerNonce gasTip gasFeeCap gasLimit delegate txData
            userNonce authSig))) \<le> 307 + length txData"
proof -
  have c: "length (RLP (Str (BE (nat chainId)))) \<le> 33"
    using assms by (intro length_RLP_uint256) auto
  have t: "length (RLP (Str (BE (nat gasTip)))) \<le> 33"
    using assms by (intro length_RLP_uint256) auto
  have f: "length (RLP (Str (BE (nat gasFeeCap)))) \<le> 33"
    using assms by (intro length_RLP_uint256) auto
  have rn: "length (RLP (Str (BE (unat relayerNonce)))) \<le> 9" by (rule length_RLP_uint64)
  have gl: "length (RLP (Str (BE (unat gasLimit)))) \<le> 9" by (rule length_RLP_uint64)
  have d: "length (RLP (Str delegate)) \<le> 21"
    using assms length_RLP_Str_short [of delegate] by simp
  have z: "length (RLP (Str [])) = 1" by simp
  have td: "length (RLP (Str txData)) \<le> length txData + 9"
    using assms by (intro length_RLP_Str_le) simp
  have al: "length (RLP (Lst [])) = 1" by simp
  have e: "length (RLP (authEntry chainId delegate userNonce authSig)) \<le> 140"
    using assms by (intro length_authEntry) auto
  have "length (concat (map RLP [authEntry chainId delegate userNonce authSig])) < 2 ^ 64"
    using e by (simp del: RLP.simps)
  then have "length (RLP (Lst [authEntry chainId delegate userNonce authSig]))
      \<le> length (concat (map RLP [authEntry chainId delegate userNonce authSig])) + 9"
    by (rule length_RLP_Lst_le)
  then have au: "length (RLP (Lst [authEntry chainId delegate userNonce authSig])) \<le> 149"
    using e by (simp del: RLP.simps)
  let ?flds = "envelope chainId relayerNonce gasTip gasFeeCap gasLimit delegate txData userNonce authSig"
  have sum: "length (concat (map RLP ?flds)) \<le> 298 + length txData"
    unfolding envelope_def using c t f rn gl d z td al au by (simp del: RLP.simps)
  then have small: "length (concat (map RLP ?flds)) < 2 ^ 64" using assms(8) by simp
  then have "length (RLP (Lst ?flds)) \<le> length (concat (map RLP ?flds)) + 9"
    by (rule length_RLP_Lst_le)
  then show ?thesis using sum by simp
qed

subsection \<open>The builder under the fixed signatures\<close>

lemma SetBytes_zeros: "SetBytes (replicate n 0 @ bs) = SetBytes bs"
proof -
  have "foldl (\<lambda>a b. a * 256 + unat b) 0 (replicate n (0 :: byte)) = 0"
    by (induction n) simp_all
  then show ?thesis by (simp add: SetBytes_def)
qed

lemma fixedSignature_parts:
  "length fixedSignature = 65" "fixedSignature ! 64 = 1"
  "SetBytes (take 32 fixedSignature) = 1" "SetBytes (take 32 (drop 32 fixedSignature)) = 2"
proof -
  show "length fixedSignature = 65" "fixedSignature ! 64 = 1"
    by (simp_all add: fixedSignature_def nth_append)
  have "take 32 fixedSignature = replicate 31 0 @ [1]"
    by (simp add: fixedSignature_def)
  then show "SetBytes (take 32 fixedSignature) = 1"
    by (simp only: SetBytes_zeros) (simp add: SetBytes_def)
  have "take 32 (drop 32 fixedSignature) = replicate 31 0 @ [2]"
    by (simp add: fixedSignature_def)
  then show "SetBytes (take 32 (drop 32 fixedSignature)) = 2"
    by (simp only: SetBytes_zeros) (simp add: SetBytes_def)
qed

lemma fixedCrypto_calls:
  "Keccak256 fixedCrypto msg = replicate 32 0" "Sign fixedCrypto digest key = Inr fixedSignature"
  by (simp_all add: fixedCrypto_def)

lemma BE_numeral: "BE (numeral k) = BE (numeral k div 256) @ [of_nat (numeral k mod 256)]"
  by (rule BE_pos) simp

lemma BE_1: "BE (Suc 0) = [1]"
  using BE_small [of 1] by simp

lemma zeroAddress_bytes:
  "zeroAddress = [0, 0, 0, 0, 0, 0, 0, 0, 0, 0, 0, 0, 0, 0, 0, 0, 0, 0, 0, 0]"
  by (simp add: zeroAddress_def eval_nat_numeral)

lemma RLP_Lst_long:
  "length (concat (map RLP xs)) = n \<Longrightarrow> 56 \<le> n
     \<Longrightarrow> RLP (Lst xs) = of_nat (247 + length (BE n)) # BE n @ concat (map RLP xs)"
  by (auto simp: Let_def)

lemma scenario_unsigned_hex:
  "hex_EncodeToString (0x04 # RLP (Lst (envelope 1 12 100000000 2100000000 100000 zeroAddress [] 5 fixedSignature)))
    = ''04f844010c8405f5e100847d2b7500830186a09400000000000000000000000000000000000000008080c0dbda0194000000000000000000000000000000000000000005010102''"
proof -
  let ?flds = "envelope 1 12 100000000 2100000000 100000 zeroAddress [] 5 fixedSignature"
  have n: "length (concat (map RLP ?flds)) = 68"
    by (simp add: envelope_def authEntry_def fixedSignature_parts BE_numeral BE_0 BE_1 zeroAddress_bytes)
  have "RLP (Lst ?flds) = of_nat (247 + length (BE 68)) # BE 68 @ concat (map RLP ?flds)"
    by (rule RLP_Lst_long [OF n]) simp
  then show ?thesis
    by (simp add: envelope_def authEntry_def fixedSignature_parts BE_numeral BE_0 BE_1
        zeroAddress_bytes hex_EncodeToString_def hextable_def)
qed

lemma scenario_signed_hex:
  "hex_EncodeToString (0x04 # RLP (Lst (envelope 1 12 100000000 2100000000 100000 zeroAddress [] 5 fixedSignature
       @ outerSignature fixedSignature)))
    = ''04f847010c8405f5e100847d2b7500830186a09400000000000000000000000000000000000000008080c0dbda0194000000000000000000000000000000000000000005010102010102''"
proof -
  let ?flds = "envelope 1 12 100000000 2100000000 100000 zeroAddress [] 5 fixedSignature
       @ outerSignature fixedSignature"
  have n: "length (concat (map RLP ?flds)) = 71"
    by (simp add: envelope_def authEntry_def outerSignature_def fixedSignature_parts BE_numeral BE_0 BE_1
        zeroAddress_bytes)
  have "RLP (Lst ?flds) = of_nat (247 + length (BE 71)) # BE 71 @ concat (map RLP ?flds)"
    by (rule RLP_Lst_long [OF n]) simp
  then show ?thesis
    by (simp add: envelope_def authEntry_def outerSignature_def fixedSignature_parts BE_numeral BE_0 BE_1
        zeroAddress_bytes hex_EncodeToString_def hextable_def)
qed

lemma length_outerSignature:
  "length (concat (map RLP (outerSignature sig))) \<le> 68"
proof -
  have v: "length (RLP (Str (BE (unat (sig ! 64))))) \<le> 2" by (rule length_RLP_uint8)
  have r: "length (RLP (Str (BE (SetBytes (take 32 sig))))) \<le> 33"
    by (rule length_RLP_sigpart) simp
  have s: "length (RLP (Str (BE (SetBytes (take 32 (drop 32 sig)))))) \<le> 33"
    by (rule length_RLP_sigpart) simp
  show ?thesis unfolding outerSignature_def using v r s by (simp del: RLP.simps)
qed

lemma length_signed:
  assumes "length (RLP (Lst flds)) < 2 ^ 32"
  shows "length (RLP (Lst (flds @ outerSignature sig))) < 2 ^ 64"
proof -
  have "length (concat (map RLP flds)) < length (RLP (Lst flds))" by (rule length_Lst_less)
  then have "length (concat (map RLP (flds @ outerSignature sig))) < 2 ^ 32 + 68"
    using assms length_outerSignature [of sig] by simp
  then have small: "length (concat (map RLP (flds @ outerSignature sig))) < 2 ^ 33" by simp
  then have "length (concat (map RLP (flds @ outerSignature sig))) < 2 ^ 64" by simp
  then have "length (RLP (Lst (flds @ outerSignature sig)))
      \<le> length (concat (map RLP (flds @ outerSignature sig))) + 9"
    by (rule length_RLP_Lst_le)
  then show ?thesis using small by simp
qed

lemma topLevelElements_RLP:
  assumes "length (RLP (Lst xs)) < 2 ^ 64"
  shows "topLevelElements (hex_EncodeToString (0x04 # RLP (Lst xs))) = Some (map generic xs)"
  using rlp_DecodeBytes_RLP [OF assms]
  by (simp add: topLevelElements_def hex_roundtrip del: RLP.simps)


lemma generate_spec:
  assumes "0 \<le> chainId" "chainId < 2 ^ 256" "0 \<le> gasTip" "gasTip < 2 ^ 256"
    "0 \<le> gasFeeCap" "gasFeeCap < 2 ^ 256" "length delegate = 20"
    and "Sign cr (authTupleMessage cr chainId delegate userNonce) userPriv = Inr authSig"
    and "65 \<le> length authSig"
  shows "(case build7702Tx cr chainId userPriv relayerNonce userNonce gasTip gasFeeCap gasLimit delegate [] of
            Panic \<Rightarrow> Panic
          | Err e \<Rightarrow> Err e
          | Ok unsignedTxHex \<Rightarrow> signEIP7702Tx cr unsignedTxHex relayerPriv) =
         (case Sign cr (Keccak256 cr (0x04 # RLP (Lst
                  (envelope chainId relayerNonce gasTip gasFeeCap gasLimit delegate [] userNonce authSig))))
                 relayerPriv of
            Inl e \<Rightarrow> Err e
          | Inr sig \<Rightarrow>
              if length sig < 65 then Panic
              else Ok (hex_EncodeToString (0x04 # RLP (Lst
                  (envelope chainId relayerNonce gasTip gasFeeCap gasLimit delegate [] userNonce authSig
                   @ outerSignature sig)))))"
proof -
  let ?flds = "envelope chainId relayerNonce gasTip gasFeeCap gasLimit delegate [] userNonce authSig"
  have b: "build7702Tx cr chainId userPriv relayerNonce userNonce gasTip gasFeeCap gasLimit delegate [] =
      Ok (hex_EncodeToString (0x04 # RLP (Lst ?flds)))"
    using assms(1,3,5,8,9) by (rule build7702Tx_spec)
  have "length (RLP (Lst ?flds)) \<le> 307 + length ([] :: byte list)"
    using assms(1-7) by (intro length_envelope) auto
  then have "length (RLP (Lst ?flds)) < 2 ^ 64" by simp
  then show ?thesis
    by (simp only: b outcome.case signEIP7702Tx_spec)
qed

lemma set_signed_hex:
  "hex_EncodeToString (0x04 # RLP (Lst (envelope 1 12 100000000 2100000000 100000
       [0xaa, 0xaa, 0xaa, 0xaa, 0xaa, 0xaa, 0xaa, 0xaa, 0xaa, 0xaa, 0xaa, 0xaa, 0xaa, 0xaa, 0xaa, 0xaa, 0xaa, 0xaa, 0xaa, 0xaa] [] 5 fixedSignature
       @ outerSignature fixedSignature)))
    = ''04f847010c8405f5e100847d2b7500830186a094aaaaaaaaaaaaaaaaaaaaaaaaaaaaaaaaaaaaaaaa8080c0dbda0194aaaaaaaaaaaaaaaaaaaaaaaaaaaaaaaaaaaaaaaa05010102010102''"
proof -
  let ?flds = "envelope 1 12 100000000 2100000000 100000
       [0xaa, 0xaa, 0xaa, 0xaa, 0xaa, 0xaa, 0xaa, 0xaa, 0xaa, 0xaa, 0xaa, 0xaa, 0xaa, 0xaa, 0xaa, 0xaa, 0xaa, 0xaa, 0xaa, 0xaa] [] 5 fixedSignature
       @ outerSignature fixedSignature"
  have n: "length (concat (map RLP ?flds)) = 71"
    by (simp add: envelope_def authEntry_def outerSignature_def fixedSignature_parts BE_numeral BE_0 BE_1)
  have "RLP (Lst ?flds) = of_nat (247 + length (BE 71)) # BE 71 @ concat (map RLP ?flds)"
    by (rule RLP_Lst_long [OF n]) simp
  then show ?thesis
    by (simp add: envelope_def authEntry_def outerSignature_def fixedSignature_parts BE_numeral BE_0 BE_1
        hex_EncodeToString_def hextable_def)
qed

lemma fixed_generate:
  assumes "length delegate = 20"
  shows "(case build7702Tx fixedCrypto 1 () 12 5 100000000 2100000000 100000 delegate [] of
            Panic \<Rightarrow> Panic
          | Err e \<Rightarrow> Err e
          | Ok unsignedTxHex \<Rightarrow> signEIP7702Tx fixedCrypto unsignedTxHex ()) =
         Ok (hex_EncodeToString (0x04 # RLP (Lst
               (envelope 1 12 100000000 2100000000 100000 delegate [] 5 fixedSignature
                @ outerSignature fixedSignature))))"
proof -
  have "(case build7702Tx fixedCrypto 1 () 12 5 100000000 2100000000 100000 delegate [] of
            Panic \<Rightarrow> Panic
          | Err e \<Rightarrow> Err e
          | Ok unsignedTxHex \<Rightarrow> signEIP7702Tx fixedCrypto unsignedTxHex ()) =
         (case Sign fixedCrypto (Keccak256 fixedCrypto (0x04 # RLP (Lst
                  (envelope 1 12 100000000 2100000000 100000 delegate [] 5 fixedSignature)))) () of
            Inl e \<Rightarrow> Err e
          | Inr sig \<Rightarrow>
              if length sig < 65 then Panic
              else Ok (hex_EncodeToString (0x04 # RLP (Lst
                  (envelope 1 12 100000000 2100000000 100000 delegate [] 5 fixedSignature
                   @ outerSignature sig)))))"
    using assms by (intro generate_spec) (simp_all add: fixedCrypto_calls fixedSignature_parts)
  then show ?thesis
    by (simp add: fixedCrypto_calls fixedSignature_parts del: RLP.simps)
qed

lemma clear_scenario_signed:
  "GenerateSet7702AuthTx fixedCrypto (Clear_request () 5 () 12 1 100000000 2100000000 100000) = Ok ''04f847010c8405f5e100847d2b7500830186a09400000000000000000000000000000000000000008080c0dbda0194000000000000000000000000000000000000000005010102010102''"
proof -
  have "length zeroAddress = 20" by (simp add: zeroAddress_def)
  from fixed_generate [OF this] show ?thesis
    by (simp add: GenerateSet7702AuthTx_def Clear_request_def scenario_signed_hex
        split: outcome.splits del: RLP.simps)
qed

lemma set_scenario_signed_part001:
  "GenerateSet7702AuthTx_part001 fixedCrypto
     (Set_request [0xaa, 0xaa, 0xaa, 0xaa, 0xaa, 0xaa, 0xaa, 0xaa, 0xaa, 0xaa, 0xaa, 0xaa, 0xaa, 0xaa, 0xaa, 0xaa, 0xaa, 0xaa, 0xaa, 0xaa] () 5 () 12 1 100000000 2100000000 100000) = Ok ''04f847010c8405f5e100847d2b7500830186a094aaaaaaaaaaaaaaaaaaaaaaaaaaaaaaaaaaaaaaaa8080c0dbda0194aaaaaaaaaaaaaaaaaaaaaaaaaaaaaaaaaaaaaaaa05010102010102''"
proof -
  have "length ([0xaa, 0xaa, 0xaa, 0xaa, 0xaa, 0xaa, 0xaa, 0xaa, 0xaa, 0xaa, 0xaa, 0xaa, 0xaa, 0xaa, 0xaa, 0xaa, 0xaa, 0xaa, 0xaa, 0xaa] :: byte list) = 20" by simp
  from fixed_generate [OF this] show ?thesis
    by (simp add: GenerateSet7702AuthTx_part001_def Set_request_def set_signed_hex
        split: outcome.splits del: RLP.simps)
qed

lemma scenario_lengths:
  "length (RLP (Lst (envelope 1 12 100000000 2100000000 100000 zeroAddress [] 5 authSig))) < 2 ^ 32"
proof -
  have "length (RLP (Lst (envelope 1 12 100000000 2100000000 100000 zeroAddress [] 5 authSig)))
      \<le> 307 + length ([] :: byte list)"
    by (intro length_envelope) (simp_all add: zeroAddress_def)
  then show ?thesis by simp
qed

section \<open>The authorization digest\<close>

text \<open>
  C1.  For every non-negative chain id, 20-byte delegate address and authorizer nonce, the
  digest is the Keccak-256 hash of the magic byte \<open>0x05\<close> followed by the RLP encoding of
  the list \<open>[chain_id, delegate, nonce]\<close>, the integers as minimal big-endian strings and
  the address as the 21 bytes \<open>0x94 || address\<close>.  It has the 32 bytes of a Keccak-256
  output, and it is a function of these inputs and the hash alone: two crypto libraries
  with the same hash give the same digest.
\<close>

theorem authorization_digest:
  assumes "0 \<le> chainId" and "length addr = 20" and "\<And>msg. length (Keccak256 cr msg) = 32"
  shows "authTupleMessage cr chainId addr nonce =
           Keccak256 cr (0x05 # RLP (Lst [Str (BE (nat chainId)), Str addr, Str (BE (unat nonce))])) \<and>
         RLP (Str addr) = 0x94 # addr \<and>
         length (authTupleMessage cr chainId addr nonce) = 32 \<and>
         (Keccak256 cr' = Keccak256 cr
            \<longrightarrow> authTupleMessage cr' chainId addr nonce = authTupleMessage cr chainId addr nonce)"
proof -
  have eq: "authTupleMessage c chainId addr nonce =
           Keccak256 c (0x05 # RLP (Lst [Str (BE (nat chainId)), Str addr, Str (BE (unat nonce))]))" for c :: "'a crypto"
    using assms(1) by (rule authTupleMessage_spec)
  have "RLP (Str addr) = 0x94 # addr" using assms(2) by simp
  moreover have "length (authTupleMessage cr chainId addr nonce) = 32"
    unfolding eq by (rule assms(3))
  moreover have "Keccak256 cr' = Keccak256 cr
            \<longrightarrow> authTupleMessage cr' chainId addr nonce = authTupleMessage cr chainId addr nonce"
  proof
    assume "Keccak256 cr' = Keccak256 cr"
    then show "authTupleMessage cr' chainId addr nonce = authTupleMessage cr chainId addr nonce"
      by (simp only: authTupleMessage_spec [OF assms(1)])
  qed
  ultimately show ?thesis using eq [of cr] by (intro conjI)
qed

text \<open>
  Chain id 1, the zero address and nonce 5: the preimage is the 25 bytes
  \<open>05 d7 01 94 00..00 05\<close>.
\<close>

theorem authorization_digest_witness:
  "authTupleMessage fixedCrypto 1 zeroAddress 5 =
     Keccak256 fixedCrypto
       [0x05, 0xd7, 0x01, 0x94, 0, 0, 0, 0, 0, 0, 0, 0, 0, 0, 0, 0, 0, 0, 0, 0, 0, 0, 0, 0, 0x05] \<and>
   length (authTupleMessage fixedCrypto 1 zeroAddress 5) = 32"
proof -
  have k: "length (Keccak256 fixedCrypto msg) = 32" for msg by (simp add: fixedCrypto_calls)
  have a: "length zeroAddress = 20" by (simp add: zeroAddress_def)
  have m: "0x05 # RLP (Lst [Str (BE (nat 1)), Str zeroAddress, Str (BE (unat (5 :: 64 word)))]) =
      [0x05, 0xd7, 0x01, 0x94, 0, 0, 0, 0, 0, 0, 0, 0, 0, 0, 0, 0, 0, 0, 0, 0, 0, 0, 0, 0, 0x05]"
    by (simp add: BE_numeral BE_0 BE_1 zeroAddress_bytes)
  have "(0 :: int) \<le> 1" by simp
  from authorization_digest [OF this a k, of 5 fixedCrypto]
  show ?thesis unfolding m by blast
qed

section \<open>The outer signature\<close>

text \<open>
  C2.  Let the authorizer's signature over the authorization digest be the 65 bytes
  \<open>authSig\<close>, and let \<open>flds\<close> be the ten fields of the envelope, the last one the list
  holding the signed authorization \<open>[chain_id, delegate, nonce, recovery_id, r, s]\<close>.  Then
  the one signing call that decides the output is \<open>Sign\<close> with the relayer's key on the
  Keccak-256 hash of \<open>0x04\<close> followed by the RLP of \<open>flds\<close>, which holds no outer
  signature field.  Its error is returned as the error; its signature \<open>sig\<close> is split
  into \<open>r\<close>, \<open>s\<close> and the byte \<open>sig[64]\<close>, which is appended as it is, and the result is
  the hex of \<open>0x04\<close> followed by the RLP of the thirteen fields.  Integers are below
  2^256 and the delegate has 20 bytes.
\<close>

theorem outer_signature:
  assumes "0 \<le> ChainId req" "ChainId req < 2 ^ 256" "0 \<le> GasTip req" "GasTip req < 2 ^ 256"
    "0 \<le> GasFeeCap req" "GasFeeCap req < 2 ^ 256" "length (TemplateAddress req) = 20"
    and "Sign cr (authTupleMessage cr (ChainId req) (TemplateAddress req) (UserEOANonce req))
           (UserEOAPrivateKey req) = Inr authSig"
    and "length authSig = 65"
    and "flds = [Str (BE (nat (ChainId req))), Str (BE (unat (RelayerNonce req))),
                 Str (BE (nat (GasTip req))), Str (BE (nat (GasFeeCap req))),
                 Str (BE (unat (GasLimit req))), Str (TemplateAddress req), Str [], Str [], Lst [],
                 Lst [Lst [Str (BE (nat (ChainId req))), Str (TemplateAddress req),
                           Str (BE (unat (UserEOANonce req))),
                           Str (BE (unat (authSig ! 64))),
                           Str (BE (SetBytes (take 32 authSig))),
                           Str (BE (SetBytes (take 32 (drop 32 authSig))))]]]"
  shows "GenerateSet7702AuthTx_part001 cr req =
           (case Sign cr (Keccak256 cr (0x04 # RLP (Lst flds))) (RelayerEOAPrivateKey req) of
              Inl e \<Rightarrow> Err e
            | Inr sig \<Rightarrow>
                if length sig < 65 then Panic
                else Ok (hex_EncodeToString (0x04 # RLP (Lst (flds @
                       [Str (BE (unat (sig ! 64))),
                        Str (BE (SetBytes (take 32 sig))),
                        Str (BE (SetBytes (take 32 (drop 32 sig))))])))))"
proof -
  have f: "flds = envelope (ChainId req) (RelayerNonce req) (GasTip req) (GasFeeCap req) (GasLimit req)
      (TemplateAddress req) [] (UserEOANonce req) authSig"
    by (simp only: assms(10) envelope_def authEntry_def)
  have "65 \<le> length authSig" using assms(9) by simp
  with assms(1-8) show ?thesis
    unfolding GenerateSet7702AuthTx_part001_def f outerSignature_def [symmetric]
    by (rule generate_spec)
qed


text \<open>
  The set operation for the delegate \<open>0xaa..aa\<close> under the fixed signatures.
\<close>

theorem outer_signature_witness:
  "GenerateSet7702AuthTx_part001 fixedCrypto
     (Set_request [0xaa, 0xaa, 0xaa, 0xaa, 0xaa, 0xaa, 0xaa, 0xaa, 0xaa, 0xaa, 0xaa, 0xaa, 0xaa, 0xaa, 0xaa, 0xaa, 0xaa, 0xaa, 0xaa, 0xaa] () 5 () 12 1 100000000 2100000000 100000) = Ok ''04f847010c8405f5e100847d2b7500830186a094aaaaaaaaaaaaaaaaaaaaaaaaaaaaaaaaaaaaaaaa8080c0dbda0194aaaaaaaaaaaaaaaaaaaaaaaaaaaaaaaaaaaaaaaa05010102010102''"
proof -
  let ?req = "Set_request [0xaa, 0xaa, 0xaa, 0xaa, 0xaa, 0xaa, 0xaa, 0xaa, 0xaa, 0xaa, 0xaa, 0xaa, 0xaa, 0xaa, 0xaa, 0xaa, 0xaa, 0xaa, 0xaa, 0xaa] () 5 () 12 1 100000000 2100000000 100000 :: unit SetAuthorizationRequest"
  let ?flds = "envelope 1 12 100000000 2100000000 100000 [0xaa, 0xaa, 0xaa, 0xaa, 0xaa, 0xaa, 0xaa, 0xaa, 0xaa, 0xaa, 0xaa, 0xaa, 0xaa, 0xaa, 0xaa, 0xaa, 0xaa, 0xaa, 0xaa, 0xaa] [] 5 fixedSignature"
  have "GenerateSet7702AuthTx_part001 fixedCrypto ?req =
           (case Sign fixedCrypto (Keccak256 fixedCrypto (0x04 # RLP (Lst ?flds))) (RelayerEOAPrivateKey ?req) of
              Inl e \<Rightarrow> Err e
            | Inr sig \<Rightarrow>
                if length sig < 65 then Panic
                else Ok (hex_EncodeToString (0x04 # RLP (Lst (?flds @
                       [Str (BE (unat (sig ! 64))),
                        Str (BE (SetBytes (take 32 sig))),
                        Str (BE (SetBytes (take 32 (drop 32 sig))))])))))"
    by (rule outer_signature [where authSig = fixedSignature])
      (simp_all add: Set_request_def fixedCrypto_calls fixedSignature_parts envelope_def authEntry_def)
  then show ?thesis
    unfolding outerSignature_def [symmetric]
    by (simp add: fixedCrypto_calls fixedSignature_parts set_signed_hex del: RLP.simps)
qed

section \<open>The end-to-end scenario\<close>

text \<open>
  C3, as the code has it.  In the scenario (authorizer nonce 5, relayer nonce 12, chain id
  1, zero delegate, gas limit 100000, priority fee 100000000, fee cap 2100000000), with
  65-byte signatures and an authorization parity byte below 128: the payload that
  \<open>build7702Tx\<close> produces is \<open>0x04\<close> and an RLP list of exactly 10 top-level elements;
  the signed transaction that \<open>GenerateSet7702AuthTx\<close> returns is \<open>0x04\<close> and an RLP list
  of exactly 13: the same ten, then the outer recovery id, \<open>r\<close> and \<open>s\<close>.  Its tenth
  element is a list of exactly one entry, of six fields; the recovery id of the entry is
  encoded in one byte, and \<open>r\<close> and \<open>s\<close> are big-endian integers of at most 32 bytes.
\<close>

theorem scenario_payload:
  assumes "Sign cr (authTupleMessage cr 1 zeroAddress 5) userPriv = Inr authSig"
    and "length authSig = 65" and "unat (authSig ! 64) < 128"
    and "flds = envelope 1 12 100000000 2100000000 100000 zeroAddress [] 5 authSig"
    and "Sign cr (Keccak256 cr (0x04 # RLP (Lst flds))) relayerPriv = Inr sig"
    and "length sig = 65"
    and "unsignedTx = hex_EncodeToString (0x04 # RLP (Lst flds))"
    and "signedTx = hex_EncodeToString (0x04 # RLP (Lst (flds @ outerSignature sig)))"
  shows "build7702Tx cr 1 userPriv 12 5 100000000 2100000000 100000 zeroAddress [] = Ok unsignedTx \<and>
         map_option length (topLevelElements unsignedTx) = Some 10 \<and>
         GenerateSet7702AuthTx cr (Clear_request userPriv 5 relayerPriv 12 1 100000000 2100000000 100000)
           = Ok signedTx \<and>
         map_option length (topLevelElements signedTx) = Some 13 \<and>
         map_option (\<lambda>vs. vs ! 9) (topLevelElements signedTx) =
           Some (Slice [Slice [Bytes [1], Bytes zeroAddress, Bytes [5],
                               Bytes (BE (unat (authSig ! 64))),
                               Bytes (BE (SetBytes (take 32 authSig))),
                               Bytes (BE (SetBytes (take 32 (drop 32 authSig))))]]) \<and>
         length (RLP (Str (BE (unat (authSig ! 64))))) = 1 \<and>
         length (BE (SetBytes (take 32 authSig))) \<le> 32 \<and>
         length (BE (SetBytes (take 32 (drop 32 authSig)))) \<le> 32"
proof -
  have len: "65 \<le> length authSig" using assms(2) by simp
  have za: "length zeroAddress = 20" by (simp add: zeroAddress_def)
  have small: "length (RLP (Lst flds)) < 2 ^ 32" unfolding assms(4) by (rule scenario_lengths)
  then have l1: "length (RLP (Lst flds)) < 2 ^ 64" by simp
  have l2: "length (RLP (Lst (flds @ outerSignature sig))) < 2 ^ 64"
    using small by (rule length_signed)
  have b: "build7702Tx cr 1 userPriv 12 5 100000000 2100000000 100000 zeroAddress [] = Ok unsignedTx"
    unfolding assms(7) assms(4)
    by (rule build7702Tx_spec [OF _ _ _ assms(1) len]) simp_all
  have g: "GenerateSet7702AuthTx cr (Clear_request userPriv 5 relayerPriv 12 1 100000000 2100000000 100000)
           = Ok signedTx"
    using assms(5,6) signEIP7702Tx_spec [OF l1, of cr relayerPriv]
    by (simp add: GenerateSet7702AuthTx_def Clear_request_def b assms(7,8) del: RLP.simps)
  have t1: "topLevelElements unsignedTx = Some (map generic flds)"
    unfolding assms(7) using l1 by (rule topLevelElements_RLP)
  have t2: "topLevelElements signedTx = Some (map generic (flds @ outerSignature sig))"
    unfolding assms(8) using l2 by (rule topLevelElements_RLP)
  have n1: "map_option length (topLevelElements unsignedTx) = Some 10"
    by (simp add: t1 assms(4) envelope_def)
  have n2: "map_option length (topLevelElements signedTx) = Some 13"
    by (simp add: t2 assms(4) envelope_def outerSignature_def)
  have entry: "map_option (\<lambda>vs. vs ! 9) (topLevelElements signedTx) =
           Some (Slice [Slice [Bytes [1], Bytes zeroAddress, Bytes [5],
                               Bytes (BE (unat (authSig ! 64))),
                               Bytes (BE (SetBytes (take 32 authSig))),
                               Bytes (BE (SetBytes (take 32 (drop 32 authSig))))]])"
    by (simp add: t2 assms(4) envelope_def authEntry_def BE_numeral BE_0 BE_1)
  have v: "length (RLP (Str (BE (unat (authSig ! 64))))) = 1"
  proof (cases "unat (authSig ! 64) = 0")
    case True
    then show ?thesis by (simp add: BE_0)
  next
    case False
    then have "BE (unat (authSig ! 64)) = [of_nat (unat (authSig ! 64))]"
      using assms(3) by (intro BE_small) auto
    then show ?thesis using assms(3) by (simp add: unat_byte_small)
  qed
  have r: "length (BE (SetBytes (take 32 authSig))) \<le> 32" by (rule length_RLP_sigpart) simp
  have s': "length (BE (SetBytes (take 32 (drop 32 authSig)))) \<le> 32" by (rule length_RLP_sigpart) simp
  show ?thesis using b n1 g n2 entry v r s' by (intro conjI)
qed

text \<open>
  The scenario under the fixed signatures, with both payloads written out.
\<close>

theorem scenario_payload_witness:
  "build7702Tx fixedCrypto 1 () 12 5 100000000 2100000000 100000 zeroAddress [] = Ok ''04f844010c8405f5e100847d2b7500830186a09400000000000000000000000000000000000000008080c0dbda0194000000000000000000000000000000000000000005010102'' \<and>
   map_option length (topLevelElements ''04f844010c8405f5e100847d2b7500830186a09400000000000000000000000000000000000000008080c0dbda0194000000000000000000000000000000000000000005010102'') = Some 10 \<and>
   GenerateSet7702AuthTx fixedCrypto (Clear_request () 5 () 12 1 100000000 2100000000 100000) = Ok ''04f847010c8405f5e100847d2b7500830186a09400000000000000000000000000000000000000008080c0dbda0194000000000000000000000000000000000000000005010102010102'' \<and>
   length (RLP (Str (BE (unat (fixedSignature ! 64))))) = 1"
proof -
  have "unat (fixedSignature ! 64) < 128" by (simp add: fixedSignature_parts)
  from scenario_payload [OF fixedCrypto_calls(2) fixedSignature_parts(1) this refl
      fixedCrypto_calls(2) fixedSignature_parts(1) refl refl, of "()" "()"]
  show ?thesis
    unfolding scenario_unsigned_hex scenario_signed_hex by blast
qed

text \<open>
  C3 as stated fails: the signed transaction of the scenario has 13 top-level elements,
  not 10.
\<close>

theorem signed_payload_counterexample:
  "GenerateSet7702AuthTx fixedCrypto (Clear_request () 5 () 12 1 100000000 2100000000 100000) = Ok ''04f847010c8405f5e100847d2b7500830186a09400000000000000000000000000000000000000008080c0dbda0194000000000000000000000000000000000000000005010102010102'' \<and>
   map_option length (topLevelElements ''04f847010c8405f5e100847d2b7500830186a09400000000000000000000000000000000000000008080c0dbda0194000000000000000000000000000000000000000005010102010102'') = Some 13"
proof -
  let ?flds = "envelope 1 12 100000000 2100000000 100000 zeroAddress [] 5 fixedSignature
       @ outerSignature fixedSignature"
  have "length (RLP (Lst ?flds)) < 2 ^ 64"
    using scenario_lengths by (rule length_signed)
  then have "topLevelElements (hex_EncodeToString (0x04 # RLP (Lst ?flds))) = Some (map generic ?flds)"
    by (rule topLevelElements_RLP)
  then have "map_option length (topLevelElements ''04f847010c8405f5e100847d2b7500830186a09400000000000000000000000000000000000000008080c0dbda0194000000000000000000000000000000000000000005010102010102'') = Some 13"
    unfolding scenario_signed_hex by (simp add: envelope_def outerSignature_def)
  with clear_scenario_signed show ?thesis by (intro conjI)
qed

section \<open>The template address\<close>

text \<open>
  Whenever the builder followed by the signer returns a transaction, it decodes to the ten
  fields of the envelope and the three of the outer signature, for some pair of
  signatures.
\<close>

lemma generate_Ok_elements:
  assumes "0 \<le> chainId" "chainId < 2 ^ 256" "0 \<le> gasTip" "gasTip < 2 ^ 256"
    "0 \<le> gasFeeCap" "gasFeeCap < 2 ^ 256" "length delegate = 20"
    and ok: "(case build7702Tx cr chainId userPriv relayerNonce userNonce gasTip gasFeeCap gasLimit delegate [] of
            Panic \<Rightarrow> Panic
          | Err e \<Rightarrow> Err e
          | Ok unsignedTxHex \<Rightarrow> signEIP7702Tx cr unsignedTxHex relayerPriv) = Ok tx"
  shows "\<exists>authSig sig. topLevelElements tx =
           Some (map generic (envelope chainId relayerNonce gasTip gasFeeCap gasLimit delegate []
                    userNonce authSig @ outerSignature sig))"
proof (cases "Sign cr (authTupleMessage cr chainId delegate userNonce) userPriv")
  case (Inl e)
  then have "build7702Tx cr chainId userPriv relayerNonce userNonce gasTip gasFeeCap gasLimit delegate [] = Err e"
    by (simp add: build7702Tx_def Let_def)
  with ok show ?thesis by simp
next
  case (Inr authSig)
  show ?thesis
  proof (cases "length authSig < 65")
    case True
    with Inr have "build7702Tx cr chainId userPriv relayerNonce userNonce gasTip gasFeeCap gasLimit delegate [] = Panic"
      by (simp add: build7702Tx_def Let_def)
    with ok show ?thesis by simp
  next
    case False
    then have len: "65 \<le> length authSig" by simp
    let ?flds = "envelope chainId relayerNonce gasTip gasFeeCap gasLimit delegate [] userNonce authSig"
    have spec: "(case Sign cr (Keccak256 cr (0x04 # RLP (Lst ?flds))) relayerPriv of
            Inl e \<Rightarrow> Err e
          | Inr sig \<Rightarrow>
              if length sig < 65 then Panic
              else Ok (hex_EncodeToString (0x04 # RLP (Lst (?flds @ outerSignature sig))))) = Ok tx"
      using generate_spec [OF assms(1-7) Inr len, of relayerPriv relayerNonce gasLimit] ok
      by (simp only:)
    then obtain sig where sig: "Sign cr (Keccak256 cr (0x04 # RLP (Lst ?flds))) relayerPriv = Inr sig"
      by (cases "Sign cr (Keccak256 cr (0x04 # RLP (Lst ?flds))) relayerPriv") (simp_all del: RLP.simps)
    have tx: "tx = hex_EncodeToString (0x04 # RLP (Lst (?flds @ outerSignature sig)))"
      using spec unfolding sig by (simp del: RLP.simps split: if_splits)
    have "length (RLP (Lst ?flds)) \<le> 307 + length ([] :: byte list)"
      using assms(1-7) by (intro length_envelope) auto
    then have "length (RLP (Lst ?flds)) < 2 ^ 32" by simp
    then have "length (RLP (Lst (?flds @ outerSignature sig))) < 2 ^ 64" by (rule length_signed)
    then have "topLevelElements tx = Some (map generic (?flds @ outerSignature sig))"
      unfolding tx by (rule topLevelElements_RLP)
    then show ?thesis by blast
  qed
qed

lemma signedTx_delegate:
  assumes "0 \<le> chainId" "chainId < 2 ^ 256" "0 \<le> gasTip" "gasTip < 2 ^ 256"
    "0 \<le> gasFeeCap" "gasFeeCap < 2 ^ 256" "length delegate = 20"
    and ok: "(case build7702Tx cr chainId userPriv relayerNonce userNonce gasTip gasFeeCap gasLimit delegate [] of
            Panic \<Rightarrow> Panic
          | Err e \<Rightarrow> Err e
          | Ok unsignedTxHex \<Rightarrow> signEIP7702Tx cr unsignedTxHex relayerPriv) = Ok tx"
  shows "map_option (\<lambda>vs. vs ! 5) (topLevelElements tx) = Some (Bytes delegate)"
    and "\<exists>authSig. map_option (\<lambda>vs. vs ! 9) (topLevelElements tx) =
           Some (Slice [generic (authEntry chainId delegate userNonce authSig)])"
proof -
  obtain authSig sig where t: "topLevelElements tx =
           Some (map generic (envelope chainId relayerNonce gasTip gasFeeCap gasLimit delegate []
                    userNonce authSig @ outerSignature sig))"
    using generate_Ok_elements [OF assms] by blast
  show "map_option (\<lambda>vs. vs ! 5) (topLevelElements tx) = Some (Bytes delegate)"
    unfolding t by (simp add: envelope_def)
  have "map_option (\<lambda>vs. vs ! 9) (topLevelElements tx) =
           Some (Slice [generic (authEntry chainId delegate userNonce authSig)])"
    unfolding t by (simp add: envelope_def)
  then show "\<exists>authSig. map_option (\<lambda>vs. vs ! 9) (topLevelElements tx) =
           Some (Slice [generic (authEntry chainId delegate userNonce authSig)])" ..
qed


lemma fixed_Set_signedTx:
  "Set_signedTx fixedCrypto [0xaa, 0xaa, 0xaa, 0xaa, 0xaa, 0xaa, 0xaa, 0xaa, 0xaa, 0xaa, 0xaa, 0xaa, 0xaa, 0xaa, 0xaa, 0xaa, 0xaa, 0xaa, 0xaa, 0xaa] () 5 () 12 1 100000000 2100000000 100000 = Ok ''04f847010c8405f5e100847d2b7500830186a094aaaaaaaaaaaaaaaaaaaaaaaaaaaaaaaaaaaaaaaa8080c0dbda0194aaaaaaaaaaaaaaaaaaaaaaaaaaaaaaaaaaaaaaaa05010102010102''"
  using set_scenario_signed_part001 by (simp only: Set_signedTx_def)

lemma fixed_Clear_signedTx:
  "Clear_signedTx fixedCrypto () 5 () 12 1 100000000 2100000000 100000 = Ok ''04f847010c8405f5e100847d2b7500830186a09400000000000000000000000000000000000000008080c0dbda0194000000000000000000000000000000000000000005010102010102''"
proof -
  have "length zeroAddress = 20" by (simp add: zeroAddress_def)
  from fixed_generate [OF this] show ?thesis
    by (simp add: Clear_signedTx_def GenerateSet7702AuthTx_part001_def Clear_request_def
        scenario_signed_hex split: outcome.splits del: RLP.simps)
qed

text \<open>
  C9, as the program has it.  \<open>GenerateSet7702AuthTx\<close> of the earlier clear.go never reads
  \<open>TemplateAddress\<close>: changing the field changes nothing, and the function is the later
  variant applied to the zero address.  \<open>Set\<close> is compiled with the later variant, which
  passes the field through.  Whenever \<open>Set\<close> produces a transaction (integers below 2^256,
  an address of 20 bytes), its destination and the delegate of its one authorization entry
  are the address supplied, and the clear operation for the same keys, nonces and fees
  does not produce this transaction unless the address is zero.  For the zero address the
  two coincide, and on a clear request the two variants agree.
\<close>

theorem set_passes_template_address:
  assumes "0 \<le> chainID" "chainID < 2 ^ 256" "0 \<le> gasTip" "gasTip < 2 ^ 256"
    "0 \<le> gasFeeCap" "gasFeeCap < 2 ^ 256" "length templateAddress = 20"
    and "Set_signedTx cr templateAddress userKey userNonce relayerKey relayerNonce chainID gasTip
           gasFeeCap gasLimit = Ok setTx"
  shows "GenerateSet7702AuthTx cr (req\<lparr>TemplateAddress := a\<rparr>) = GenerateSet7702AuthTx cr req \<and>
         GenerateSet7702AuthTx cr req =
           GenerateSet7702AuthTx_part001 cr (req\<lparr>TemplateAddress := zeroAddress\<rparr>) \<and>
         map_option (\<lambda>vs. vs ! 5) (topLevelElements setTx) = Some (Bytes templateAddress) \<and>
         (\<exists>authSig. map_option (\<lambda>vs. vs ! 9) (topLevelElements setTx) =
            Some (Slice [Slice [Bytes (BE (nat chainID)), Bytes templateAddress,
                                Bytes (BE (unat userNonce)),
                                Bytes (BE (unat (authSig ! 64))),
                                Bytes (BE (SetBytes (take 32 authSig))),
                                Bytes (BE (SetBytes (take 32 (drop 32 authSig))))]])) \<and>
         (templateAddress \<noteq> zeroAddress
            \<longrightarrow> Clear_signedTx cr userKey userNonce relayerKey relayerNonce chainID gasTip gasFeeCap
                  gasLimit \<noteq> Ok setTx) \<and>
         Set_signedTx cr zeroAddress userKey userNonce relayerKey relayerNonce chainID gasTip gasFeeCap
             gasLimit =
           Clear_signedTx cr userKey userNonce relayerKey relayerNonce chainID gasTip gasFeeCap gasLimit \<and>
         Clear_signedTx cr userKey userNonce relayerKey relayerNonce chainID gasTip gasFeeCap gasLimit =
           GenerateSet7702AuthTx cr
             (Clear_request userKey userNonce relayerKey relayerNonce chainID gasTip gasFeeCap gasLimit)"
proof -
  have ignored: "GenerateSet7702AuthTx cr (req\<lparr>TemplateAddress := a\<rparr>) = GenerateSet7702AuthTx cr req"
    by (simp add: GenerateSet7702AuthTx_def split: outcome.splits)
  have legacy: "GenerateSet7702AuthTx cr req =
      GenerateSet7702AuthTx_part001 cr (req\<lparr>TemplateAddress := zeroAddress\<rparr>)"
    by (simp add: GenerateSet7702AuthTx_def GenerateSet7702AuthTx_part001_def split: outcome.splits)
  have setOk: "(case build7702Tx cr chainID userKey relayerNonce userNonce gasTip gasFeeCap gasLimit
                     templateAddress [] of
            Panic \<Rightarrow> Panic
          | Err e \<Rightarrow> Err e
          | Ok unsignedTxHex \<Rightarrow> signEIP7702Tx cr unsignedTxHex relayerKey) = Ok setTx"
    using assms(8)
    by (simp add: Set_signedTx_def GenerateSet7702AuthTx_part001_def Set_request_def
        split: outcome.splits)
  have dest: "map_option (\<lambda>vs. vs ! 5) (topLevelElements setTx) = Some (Bytes templateAddress)"
    using assms(1-7) setOk by (rule signedTx_delegate(1))
  have "\<exists>authSig. map_option (\<lambda>vs. vs ! 9) (topLevelElements setTx) =
           Some (Slice [generic (authEntry chainID templateAddress userNonce authSig)])"
    using assms(1-7) setOk by (rule signedTx_delegate(2))
  then have entry: "\<exists>authSig. map_option (\<lambda>vs. vs ! 9) (topLevelElements setTx) =
            Some (Slice [Slice [Bytes (BE (nat chainID)), Bytes templateAddress,
                                Bytes (BE (unat userNonce)),
                                Bytes (BE (unat (authSig ! 64))),
                                Bytes (BE (SetBytes (take 32 authSig))),
                                Bytes (BE (SetBytes (take 32 (drop 32 authSig))))]])"
    by (simp add: authEntry_def)
  have differ: "templateAddress \<noteq> zeroAddress
            \<longrightarrow> Clear_signedTx cr userKey userNonce relayerKey relayerNonce chainID gasTip gasFeeCap
                  gasLimit \<noteq> Ok setTx"
  proof (intro impI notI)
    assume ne: "templateAddress \<noteq> zeroAddress"
    assume "Clear_signedTx cr userKey userNonce relayerKey relayerNonce chainID gasTip gasFeeCap
                  gasLimit = Ok setTx"
    then have clearOk: "(case build7702Tx cr chainID userKey relayerNonce userNonce gasTip gasFeeCap
                     gasLimit zeroAddress [] of
            Panic \<Rightarrow> Panic
          | Err e \<Rightarrow> Err e
          | Ok unsignedTxHex \<Rightarrow> signEIP7702Tx cr unsignedTxHex relayerKey) = Ok setTx"
      by (simp add: Clear_signedTx_def GenerateSet7702AuthTx_part001_def Clear_request_def
          split: outcome.splits)
    have za: "length zeroAddress = 20" by (simp add: zeroAddress_def)
    have "map_option (\<lambda>vs. vs ! 5) (topLevelElements setTx) = Some (Bytes zeroAddress)"
      using assms(1-6) za clearOk by (rule signedTx_delegate(1))
    with dest have "templateAddress = zeroAddress" by simp
    with ne show False by simp
  qed
  have same: "Set_signedTx cr zeroAddress userKey userNonce relayerKey relayerNonce chainID gasTip gasFeeCap
             gasLimit =
           Clear_signedTx cr userKey userNonce relayerKey relayerNonce chainID gasTip gasFeeCap gasLimit"
    by (simp add: Set_signedTx_def Clear_signedTx_def Set_request_def Clear_request_def)
  have variant: "Clear_signedTx cr userKey userNonce relayerKey relayerNonce chainID gasTip gasFeeCap gasLimit =
           GenerateSet7702AuthTx cr
             (Clear_request userKey userNonce relayerKey relayerNonce chainID gasTip gasFeeCap gasLimit)"
    by (simp add: Clear_signedTx_def GenerateSet7702AuthTx_def GenerateSet7702AuthTx_part001_def
        Clear_request_def split: outcome.splits)
  show ?thesis using ignored legacy dest entry differ same variant by (intro conjI)
qed

text \<open>
  \<open>Set\<close> for the delegate \<open>0xaa..aa\<close> under the fixed signatures: the sixth field of its
  transaction is that address, and \<open>Clear\<close> does not produce it.
\<close>

theorem set_passes_template_address_witness:
  "map_option (\<lambda>vs. vs ! 5) (topLevelElements ''04f847010c8405f5e100847d2b7500830186a094aaaaaaaaaaaaaaaaaaaaaaaaaaaaaaaaaaaaaaaa8080c0dbda0194aaaaaaaaaaaaaaaaaaaaaaaaaaaaaaaaaaaaaaaa05010102010102'') = Some (Bytes [0xaa, 0xaa, 0xaa, 0xaa, 0xaa, 0xaa, 0xaa, 0xaa, 0xaa, 0xaa, 0xaa, 0xaa, 0xaa, 0xaa, 0xaa, 0xaa, 0xaa, 0xaa, 0xaa, 0xaa]) \<and>
   Clear_signedTx fixedCrypto () 5 () 12 1 100000000 2100000000 100000 \<noteq> Ok ''04f847010c8405f5e100847d2b7500830186a094aaaaaaaaaaaaaaaaaaaaaaaaaaaaaaaaaaaaaaaa8080c0dbda0194aaaaaaaaaaaaaaaaaaaaaaaaaaaaaaaaaaaaaaaa05010102010102''"
proof -
  have ne: "[0xaa, 0xaa, 0xaa, 0xaa, 0xaa, 0xaa, 0xaa, 0xaa, 0xaa, 0xaa, 0xaa, 0xaa, 0xaa, 0xaa, 0xaa, 0xaa, 0xaa, 0xaa, 0xaa, 0xaa] \<noteq> zeroAddress" by (simp add: zeroAddress_bytes)
  have len: "length ([0xaa, 0xaa, 0xaa, 0xaa, 0xaa, 0xaa, 0xaa, 0xaa, 0xaa, 0xaa, 0xaa, 0xaa, 0xaa, 0xaa, 0xaa, 0xaa, 0xaa, 0xaa, 0xaa, 0xaa] :: byte list) = 20" by simp
  have b: "(0 :: int) \<le> 1" "(1 :: int) < 2 ^ 256" "(0 :: int) \<le> 100000000"
    "(100000000 :: int) < 2 ^ 256" "(0 :: int) \<le> 2100000000" "(2100000000 :: int) < 2 ^ 256"
    by simp_all
  from set_passes_template_address [OF b len fixed_Set_signedTx,
      where req = "Clear_request () 5 () 12 1 100000000 2100000000 100000" and a = zeroAddress]
  show ?thesis using ne by blast
qed

text \<open>
  C9 as stated fails: for the same keys, nonces and fees, \<open>Set\<close> for the delegate
  \<open>0xaa..aa\<close> and \<open>Clear\<close> produce different transaction bytes.
\<close>

theorem set_equals_clear_counterexample:
  "Set_signedTx fixedCrypto [0xaa, 0xaa, 0xaa, 0xaa, 0xaa, 0xaa, 0xaa, 0xaa, 0xaa, 0xaa, 0xaa, 0xaa, 0xaa, 0xaa, 0xaa, 0xaa, 0xaa, 0xaa, 0xaa, 0xaa] () 5 () 12 1 100000000 2100000000 100000 = Ok ''04f847010c8405f5e100847d2b7500830186a094aaaaaaaaaaaaaaaaaaaaaaaaaaaaaaaaaaaaaaaa8080c0dbda0194aaaaaaaaaaaaaaaaaaaaaaaaaaaaaaaaaaaaaaaa05010102010102'' \<and>
   Clear_signedTx fixedCrypto () 5 () 12 1 100000000 2100000000 100000 = Ok ''04f847010c8405f5e100847d2b7500830186a09400000000000000000000000000000000000000008080c0dbda0194000000000000000000000000000000000000000005010102010102'' \<and>
   Set_signedTx fixedCrypto [0xaa, 0xaa, 0xaa, 0xaa, 0xaa, 0xaa, 0xaa, 0xaa, 0xaa, 0xaa, 0xaa, 0xaa, 0xaa, 0xaa, 0xaa, 0xaa, 0xaa, 0xaa, 0xaa, 0xaa] () 5 () 12 1 100000000 2100000000 100000 \<noteq>
     Clear_signedTx fixedCrypto () 5 () 12 1 100000000 2100000000 100000"
proof -
  have "''04f847010c8405f5e100847d2b7500830186a094aaaaaaaaaaaaaaaaaaaaaaaaaaaaaaaaaaaaaaaa8080c0dbda0194aaaaaaaaaaaaaaaaaaaaaaaaaaaaaaaaaaaaaaaa05010102010102'' \<noteq> ''04f847010c8405f5e100847d2b7500830186a09400000000000000000000000000000000000000008080c0dbda0194000000000000000000000000000000000000000005010102010102''" by simp
  then show ?thesis by (simp only: fixed_Set_signedTx fixed_Clear_signedTx) simp
qed

end
